theory Spec2Isabelle
  imports Complex_Main "HOL-Library.AList"
begin

section \<open>Common data\<close>

text \<open>
  Python exceptions are values: every function that can raise returns
  \<open>error + 'a\<close>, with \<open>Inl\<close> for the exception.  \<open>ValueError\<close> is what
  \<open>GameState.where_in_id\<close> raises for an unknown table name.
\<close>

datatype error = AssertionError | IndexError | KeyError | AttributeError | ValueError

definition bind_err :: "error + 'a \<Rightarrow> ('a \<Rightarrow> error + 'b) \<Rightarrow> error + 'b" where
  "bind_err x f = (case x of Inl e \<Rightarrow> Inl e | Inr v \<Rightarrow> f v)"

text \<open>
  The materials named by the sources (\<open>material.Grass\<close>, \<open>material.Stone\<close> in
  \<open>map.py\<close>; the harvest targets in \<open>skill.py\<close>) and \<open>Void\<close>.
\<close>

datatype material =
  Void | Grass | Stone | Forest | Water | Fish | Herb | Ore | Tree | Crystal

text \<open>
  A two-dimensional numpy array: its shape and its rows (\<open>length rows = fst shape\<close>
  and every row has \<open>snd shape\<close> entries).
\<close>

record 'a ndarray2 =
  shape :: "nat \<times> nat"
  rows :: "'a list list"

text \<open>
  numpy resolves an index \<open>i\<close> along an axis of length \<open>n\<close>: \<open>0 \<le> i < n\<close> is
  itself, \<open>-n \<le> i < 0\<close> counts from the end, anything else raises IndexError.
\<close>

definition np_index :: "nat \<Rightarrow> int \<Rightarrow> error + nat" where
  "np_index n i =
     (if 0 \<le> i \<and> i < int n then Inr (nat i)
      else if - int n \<le> i \<and> i < 0 then Inr (nat (i + int n))
      else Inl IndexError)"

text \<open>The configuration fields the modelled code reads.\<close>

record config =
  MAP_SIZE :: nat
  MAP_CENTER :: int
  MAP_BORDER :: int
  PLAYER_VISION_RADIUS :: int
  TERRAIN_SYSTEM_ENABLED :: bool
  MAP_RESET_FROM_FRACTAL :: bool
  PROFESSION_SYSTEM_ENABLED :: bool
  TERRAIN_DISABLE_STONE :: bool
  ITEM_SYSTEM_ENABLED :: bool
  NPC_SYSTEM_ENABLED :: bool
  NPC_SPAWN_ATTEMPTS :: int
  NPC_N :: int
  RESOURCE_SYSTEM_ENABLED :: bool
  RESOURCE_DEPLETION_RATE :: int
  RESOURCE_BASE :: int
  RESOURCE_HARVEST_RESTORE_FRACTION :: rat
  PROGRESSION_BASE_XP_SCALE :: int
  PROGRESSION_HARVEST_XP_SCALE :: int

section \<open>Tiles and the map (\<open>nmmo/core/map.py\<close>)\<close>

text \<open>
  \<open>nmmo/core/tile.py\<close> is not among the sources.  The record holds the attributes the
  sources read (\<open>tile.state\<close>, \<open>tile.depleted\<close>, \<open>tile.habitable\<close>) and, from the
  specification's data model, the regeneration countdown and the ids of the occupying
  entities.  A tile object is created once per grid position and never reallocated, so
  a tile is identified by its position.
\<close>

record tile =
  state :: material
  depleted :: bool
  countdown :: nat
  habitable :: bool
  occupants :: "int set"

type_synonym cell = "nat \<times> nat"
type_synonym coord = "int \<times> int"

text \<open>
  The \<open>Map\<close> object.  \<open>side\<close> is the side of the \<open>tiles\<close> array allocated by
  \<open>__init__\<close>; \<open>update_list\<close> is \<open>None\<close> until the first \<open>reset\<close> and an
  \<open>OrderedSet\<close> of tiles (a duplicate-free list, in insertion order) afterwards.
\<close>

record tmap =
  side :: nat
  tiles :: "cell \<Rightarrow> tile"
  habitable_tiles :: "cell \<Rightarrow> bool"
  update_list :: "cell list option"
  pathfinding_cache :: "coord \<times> coord \<rightharpoonup> coord list"
  repr_cache :: "int list list option"
  dist_border_center :: "int option"
  center_coord :: "coord option"

text \<open>\<open>OrderedSet.add\<close> and \<open>OrderedSet.remove\<close> (the latter raises KeyError).\<close>

definition os_add :: "'a \<Rightarrow> 'a list \<Rightarrow> 'a list" where
  "os_add x xs = (if x \<in> set xs then xs else xs @ [x])"

definition os_remove :: "'a \<Rightarrow> 'a list \<Rightarrow> error + 'a list" where
  "os_remove x xs = (if x \<in> set xs then Inr (removeAll x xs) else Inl KeyError)"

text \<open>\<open>self.tiles[r, c]\<close>: the position the two indices resolve to.\<close>

definition tile_pos :: "tmap \<Rightarrow> int \<Rightarrow> int \<Rightarrow> error + cell" where
  "tile_pos m r c =
     bind_err (np_index (side m) r) (\<lambda>i.
     bind_err (np_index (side m) c) (\<lambda>j. Inr (i, j)))"

text \<open>\<open>Map.__init__\<close>, with the constructor of the tiles as a parameter.\<close>

definition Map_init :: "config \<Rightarrow> (nat \<Rightarrow> nat \<Rightarrow> tile) \<Rightarrow> tmap" where
  "Map_init cfg mk_tile =
     \<lparr> side = MAP_SIZE cfg,
       tiles = (\<lambda>(r, c). mk_tile r c),
       habitable_tiles = (\<lambda>_. False),
       update_list = None,
       pathfinding_cache = Map.empty,
       repr_cache = None,
       dist_border_center = None,
       center_coord = None \<rparr>"

text \<open>
  The terrain collaborators of \<open>nmmo.core.terrain\<close> and \<open>nmmo.lib.material\<close>, and
  \<open>Tile.reset\<close>, are not among the sources: they are parameters.
\<close>

record 'f terrain =
  fractal_to_material :: "config \<Rightarrow> 'f \<Rightarrow> int ndarray2"
  spawn_profession_resources :: "config \<Rightarrow> int ndarray2 \<Rightarrow> int ndarray2"
  process_map_border :: "config \<Rightarrow> int ndarray2 \<Rightarrow> int ndarray2"
  grass_index :: int
  stone_index :: int
  materials :: "int \<rightharpoonup> material"
  tile_reset :: "material \<Rightarrow> config \<Rightarrow> tile \<Rightarrow> tile"

record 'f map_dict =
  map_arr :: "int ndarray2"
  fractal :: 'f

definition np_fill :: "'a \<Rightarrow> 'a ndarray2 \<Rightarrow> 'a ndarray2" where
  "np_fill v a = a\<lparr>rows := map (map (\<lambda>_. v)) (rows a)\<rparr>"

definition np_replace :: "'a \<Rightarrow> 'a \<Rightarrow> 'a ndarray2 \<Rightarrow> 'a ndarray2" where
  "np_replace old new a = a\<lparr>rows := map (map (\<lambda>x. if x = old then new else x)) (rows a)\<rparr>"

definition process_map :: "config \<Rightarrow> 'f terrain \<Rightarrow> 'f map_dict \<Rightarrow> int ndarray2" where
  "process_map cfg te md =
     (let a0 = map_arr md;
          a1 = (if \<not> TERRAIN_SYSTEM_ENABLED cfg then np_fill (grass_index te) a0
                else
                  (let a = (if MAP_RESET_FROM_FRACTAL cfg then
                              (let mt = fractal_to_material te cfg (fractal md)
                               in if PROFESSION_SYSTEM_ENABLED cfg
                                  then spawn_profession_resources te cfg mt else mt)
                            else a0)
                   in if TERRAIN_DISABLE_STONE cfg
                      then np_replace (stone_index te) (grass_index te) a else a))
      in process_map_border te cfg a1)"

text \<open>The two nested loops of \<open>reset\<close> over the material grid.\<close>

fun reset_row :: "config \<Rightarrow> 'f terrain \<Rightarrow> nat \<Rightarrow> nat \<Rightarrow> int list \<Rightarrow> tmap \<Rightarrow> error + tmap" where
  "reset_row cfg te r c [] m = Inr m"
| "reset_row cfg te r c (idx # row) m =
     (case materials te idx of
        None \<Rightarrow> Inl KeyError
      | Some mat \<Rightarrow>
          bind_err (tile_pos m (int r) (int c)) (\<lambda>p.
            (let t = tile_reset te mat cfg (tiles m p)
             in reset_row cfg te r (Suc c) row
                  (m\<lparr>tiles := (tiles m)(p := t),
                     habitable_tiles := (habitable_tiles m)(p := habitable t)\<rparr>))))"

fun reset_rows :: "config \<Rightarrow> 'f terrain \<Rightarrow> nat \<Rightarrow> int list list \<Rightarrow> tmap \<Rightarrow> error + tmap" where
  "reset_rows cfg te r [] m = Inr m"
| "reset_rows cfg te r (row # rest) m =
     bind_err (reset_row cfg te r 0 row m) (reset_rows cfg te (Suc r) rest)"

definition Map_reset :: "config \<Rightarrow> 'f terrain \<Rightarrow> tmap \<Rightarrow> 'f map_dict \<Rightarrow> error + tmap" where
  "Map_reset cfg te m md =
     (if shape (map_arr md) \<noteq> (MAP_SIZE cfg, MAP_SIZE cfg) then Inl AssertionError
      else if \<not> (MAP_BORDER cfg > PLAYER_VISION_RADIUS cfg) then Inl AssertionError
      else
        (let dbc = MAP_CENTER cfg div 2;
             m1 = m\<lparr>dist_border_center := Some dbc,
                     center_coord := Some (MAP_BORDER cfg + dbc, MAP_BORDER cfg + dbc),
                     repr_cache := None,
                     update_list := Some []\<rparr>
         in reset_rows cfg te 0 (rows (process_map cfg te md)) m1))"

text \<open>
  \<open>Map.step\<close>: the loop runs over a copy of the set; \<open>Tile.step\<close> is a parameter.
  Before the first \<open>reset\<close> the set is \<open>None\<close> and \<open>.copy()\<close> raises.
\<close>

fun step_loop ::
  "(tile \<Rightarrow> tile) \<Rightarrow> cell list \<Rightarrow> cell list \<Rightarrow> (cell \<Rightarrow> tile) \<Rightarrow> error + (cell list \<times> (cell \<Rightarrow> tile))" where
  "step_loop tile_step [] ul ts = Inr (ul, ts)"
| "step_loop tile_step (p # ps) ul ts =
     bind_err (if \<not> depleted (ts p) then os_remove p ul else Inr ul) (\<lambda>ul'.
       step_loop tile_step ps ul' (ts(p := tile_step (ts p))))"

definition Map_step :: "(tile \<Rightarrow> tile) \<Rightarrow> tmap \<Rightarrow> error + tmap" where
  "Map_step tile_step m =
     (case update_list m of
        None \<Rightarrow> Inl AttributeError
      | Some ul \<Rightarrow>
          bind_err (step_loop tile_step ul ul (tiles m)) (\<lambda>(ul', ts).
            Inr (m\<lparr>update_list := Some ul', tiles := ts\<rparr>)))"

text \<open>
  \<open>Map.harvest\<close>: \<open>Tile.harvest\<close> is a parameter that returns the loot table (or
  nothing) and the tile afterwards.
\<close>

definition Map_harvest ::
  "(bool \<Rightarrow> tile \<Rightarrow> 'l option \<times> tile) \<Rightarrow> tmap \<Rightarrow> int \<Rightarrow> int \<Rightarrow> bool \<Rightarrow> error + ('l option \<times> tmap)" where
  "Map_harvest tile_harvest m r c deplete =
     bind_err (if deplete then
                 (case update_list m of
                    None \<Rightarrow> Inl AttributeError
                  | Some ul \<Rightarrow> bind_err (tile_pos m r c) (\<lambda>p. Inr (m\<lparr>update_list := Some (os_add p ul)\<rparr>)))
               else Inr m) (\<lambda>m1.
     bind_err (tile_pos m1 r c) (\<lambda>p.
       (let (loot, t) = tile_harvest deplete (tiles m1 p)
        in Inr (loot, m1\<lparr>tiles := (tiles m1)(p := t)\<rparr>))))"

definition is_valid_pos :: "config \<Rightarrow> int \<Rightarrow> int \<Rightarrow> bool" where
  "is_valid_pos cfg row col = (0 \<le> row \<and> row < int (MAP_SIZE cfg) \<and> 0 \<le> col \<and> col < int (MAP_SIZE cfg))"

text \<open>
  Modelled from the spec: \<open>Tile.harvest\<close> and \<open>Tile.step\<close> of the missing
  \<open>nmmo/core/tile.py\<close>, used where a concrete tile behaviour is needed.  A tile returns
  its loot table if it currently holds a harvestable resource, else nothing; with
  \<open>deplete\<close> it is marked depleted and its regeneration countdown starts; the loot is
  that of the state before depletion.  A depleted tile counts down on each step and is
  restored to harvestable when the countdown completes.
\<close>

definition harvestable :: "material \<Rightarrow> bool" where
  "harvestable mat = (mat \<in> {Forest, Water, Fish, Herb, Ore, Tree, Crystal})"

definition spec_tile_harvest :: "nat \<Rightarrow> bool \<Rightarrow> tile \<Rightarrow> material option \<times> tile" where
  "spec_tile_harvest regen deplete t =
     (if \<not> depleted t \<and> harvestable (state t) then Some (state t) else None,
      if deplete then t\<lparr>depleted := True, countdown := regen\<rparr> else t)"

definition spec_tile_step :: "tile \<Rightarrow> tile" where
  "spec_tile_step t =
     (if \<not> depleted t then t
      else if countdown t \<le> 1 then t\<lparr>depleted := False, countdown := 0\<rparr>
      else t\<lparr>countdown := countdown t - 1\<rparr>)"


section \<open>Entities and entity groups (\<open>nmmo/entity/entity_manager.py\<close>)\<close>

text \<open>
  The attributes of an entity that the modelled code reads.  Items are opaque and
  numbered; \<open>held\<close> is the class name and level of the equipped tool; the inventory
  has room while it holds fewer than \<open>capacity\<close> items.
\<close>

type_synonym item = nat

text \<open>
  Modelled from the spec: the resource pools (food, water) of the missing entity
  resources.  The specification describes them as bounded numeric levels with a
  maximum: the level stays between 0 and its maximum, so \<open>decrement\<close> lowers it by
  the amount but not below 0, and \<open>increment\<close> raises it by the amount but not above the
  maximum.  A float level with an integral value is identified with that integer.
\<close>

record resource =
  val :: int
  max_val :: int



record entity =
  ent_id :: int
  alive :: bool
  pos :: coord
  spawn_danger :: rat
  inventory :: "item list"
  capacity :: nat
  held :: "(string \<times> int) option"
  food :: resource
  water :: resource

text \<open>
  What the group does to objects outside itself (\<open>item.destroy()\<close>,
  \<open>datastore_record.delete()\<close>) is recorded, in call order, in the realm.
\<close>

datatype effect = ItemDestroyed int item | RecordDeleted int

record realm =
  realm_map :: tmap
  effects :: "effect list"

text \<open>
  A Python \<open>dict\<close> keeps insertion order: an association list.  \<open>d[k] = v\<close> is
  \<open>AList.update\<close> (in place for a known key, appended for a new one); \<open>d[k]\<close> and
  \<open>del d[k]\<close> raise KeyError for an unknown key.
\<close>

definition dict_get :: "('k \<times> 'v) list \<Rightarrow> 'k \<Rightarrow> error + 'v" where
  "dict_get d k = (case map_of d k of None \<Rightarrow> Inl KeyError | Some v \<Rightarrow> Inr v)"

definition dict_del :: "('k \<times> 'v) list \<Rightarrow> 'k \<Rightarrow> error + ('k \<times> 'v) list" where
  "dict_del d k = (if k \<in> fst ` set d then Inr (AList.delete k d) else Inl KeyError)"

record group =
  entities :: "(int \<times> entity) list"
  dead_this_tick :: "(int \<times> entity) list"

text \<open>
  Modelled from the spec: \<open>Tile.add_entity\<close> and \<open>Tile.remove_entity\<close> of the
  missing \<open>nmmo/core/tile.py\<close>; a tile holds the set of occupying entity ids.
\<close>

definition add_entity :: "int \<Rightarrow> tile \<Rightarrow> tile" where
  "add_entity i t = t\<lparr>occupants := insert i (occupants t)\<rparr>"

definition remove_entity :: "int \<Rightarrow> tile \<Rightarrow> tile" where
  "remove_entity i t = t\<lparr>occupants := occupants t - {i}\<rparr>"

definition on_tile :: "(tile \<Rightarrow> tile) \<Rightarrow> cell \<Rightarrow> realm \<Rightarrow> realm" where
  "on_tile f p rl = rl\<lparr>realm_map := (realm_map rl)\<lparr>tiles := (tiles (realm_map rl))(p := f (tiles (realm_map rl) p))\<rparr>\<rparr>"

text \<open>\<open>EntityGroup.spawn\<close>.\<close>

definition EntityGroup_spawn ::
  "realm \<Rightarrow> 'a group_scheme \<Rightarrow> entity \<Rightarrow> error + (realm \<times> 'a group_scheme)" where
  "EntityGroup_spawn rl g e =
     (let (r, c) = pos e
      in bind_err (tile_pos (realm_map rl) r c) (\<lambda>p.
           Inr (on_tile (add_entity (ent_id e)) p rl,
                g\<lparr>entities := AList.update (ent_id e) e (entities g)\<rparr>)))"

text \<open>
  \<open>EntityGroup.cull\<close>: the loop runs over \<open>list(self.entities)\<close>, the keys as they
  were when the loop started.
\<close>

fun cull_loop ::
  "config \<Rightarrow> int list \<Rightarrow> realm \<Rightarrow> 'a group_scheme \<Rightarrow> error + (realm \<times> 'a group_scheme)" where
  "cull_loop cfg [] rl g = Inr (rl, g)"
| "cull_loop cfg (k # ks) rl g =
     bind_err (dict_get (entities g) k) (\<lambda>player.
       if \<not> alive player then
         (let (r, c) = pos player;
              eid = ent_id player;
              g1 = g\<lparr>dead_this_tick := AList.update eid player (dead_this_tick g)\<rparr>
          in bind_err (tile_pos (realm_map rl) r c) (\<lambda>p.
               (let rl1 = on_tile (remove_entity eid) p rl;
                    rl2 = (if ITEM_SYSTEM_ENABLED cfg
                           then rl1\<lparr>effects := effects rl1 @ map (ItemDestroyed eid) (inventory player)\<rparr>
                           else rl1)
                in bind_err (dict_get (entities g1) eid) (\<lambda>e.
                   (let rl3 = rl2\<lparr>effects := effects rl2 @ [RecordDeleted (ent_id e)]\<rparr>
                    in bind_err (dict_del (entities g1) eid) (\<lambda>es.
                         cull_loop cfg ks rl3 (g1\<lparr>entities := es\<rparr>)))))))
       else cull_loop cfg ks rl g)"

definition EntityGroup_cull ::
  "config \<Rightarrow> realm \<Rightarrow> 'a group_scheme \<Rightarrow> error + (realm \<times> 'a group_scheme)" where
  "EntityGroup_cull cfg rl g =
     cull_loop cfg (map fst (entities g)) rl (g\<lparr>dead_this_tick := []\<rparr>)"

text \<open>
  \<open>NPCManager\<close> extends the group.  \<open>spawn_dangers\<close> is a Python list used as a
  stack: \<open>append\<close> pushes at the end, \<open>[-1]\<close> reads the end, \<open>pop()\<close> drops it.
\<close>

record npc_manager = group +
  next_id :: int
  spawn_dangers :: "rat list"

text \<open>
  The collaborators of \<open>NPCManager.spawn\<close> are not among the sources and are
  parameters: \<open>combat.spawn\<close>, \<open>np.random.randint(low, high, 2)\<close> and \<open>NPC.spawn\<close>.
  The first two draw random numbers and the third may refuse the position, so each
  takes and returns the state \<open>'g\<close> of the random generator.
\<close>

record 'g spawner =
  combat_spawn :: "config \<Rightarrow> rat \<Rightarrow> 'g \<Rightarrow> coord \<times> 'g"
  randint2 :: "int \<Rightarrow> int \<Rightarrow> 'g \<Rightarrow> coord \<times> 'g"
  NPC_spawn :: "realm \<Rightarrow> coord \<Rightarrow> int \<Rightarrow> 'g \<Rightarrow> entity option \<times> 'g"

fun spawn_loop ::
  "'g spawner \<Rightarrow> config \<Rightarrow> nat \<Rightarrow> realm \<Rightarrow> npc_manager \<Rightarrow> 'g \<Rightarrow> error + (realm \<times> npc_manager \<times> 'g)" where
  "spawn_loop sp cfg 0 rl mg rng = Inr (rl, mg, rng)"
| "spawn_loop sp cfg (Suc n) rl mg rng =
     (if int (length (entities mg)) \<ge> NPC_N cfg then Inr (rl, mg, rng)
      else
        (let (rc, rng1) =
               (if spawn_dangers mg \<noteq> []
                then combat_spawn sp cfg (last (spawn_dangers mg)) rng
                else randint2 sp (MAP_BORDER cfg) (MAP_CENTER cfg + MAP_BORDER cfg) rng);
             (npc, rng2) = NPC_spawn sp rl rc (next_id mg) rng1
         in case npc of
              None \<Rightarrow> spawn_loop sp cfg n rl mg rng2
            | Some e \<Rightarrow>
                bind_err (EntityGroup_spawn rl mg e) (\<lambda>(rl1, mg1).
                  spawn_loop sp cfg n rl1 (mg1\<lparr>next_id := next_id mg1 - 1\<rparr>) rng2)))"

definition NPCManager_spawn ::
  "'g spawner \<Rightarrow> config \<Rightarrow> realm \<Rightarrow> npc_manager \<Rightarrow> 'g \<Rightarrow> error + (realm \<times> npc_manager \<times> 'g)" where
  "NPCManager_spawn sp cfg rl mg rng =
     (if \<not> NPC_SYSTEM_ENABLED cfg then Inr (rl, mg, rng)
      else
        bind_err (spawn_loop sp cfg (nat (NPC_SPAWN_ATTEMPTS cfg)) rl mg rng) (\<lambda>(rl1, mg1, rng1).
          Inr (rl1,
               if spawn_dangers mg1 \<noteq> [] then mg1\<lparr>spawn_dangers := butlast (spawn_dangers mg1)\<rparr> else mg1,
               rng1)))"

definition NPCManager_cull ::
  "'g spawner \<Rightarrow> config \<Rightarrow> realm \<Rightarrow> npc_manager \<Rightarrow> 'g \<Rightarrow> error + (realm \<times> npc_manager \<times> 'g)" where
  "NPCManager_cull sp cfg rl mg rng =
     bind_err (EntityGroup_cull cfg rl mg) (\<lambda>(rl1, mg1).
       NPCManager_spawn sp cfg rl1
         (mg1\<lparr>spawn_dangers := spawn_dangers mg1 @ map (\<lambda>(k, e). spawn_danger e) (dead_this_tick mg1)\<rparr>)
         rng)"

text \<open>
  For the statement of what \<open>cull\<close> does: an entity stands on the grid when its
  position resolves to a tile, and \<open>dead_at\<close> lists the ids of the registered
  entities that are not alive and stand on a given cell.
\<close>

definition on_grid :: "realm \<Rightarrow> entity \<Rightarrow> bool" where
  "on_grid rl e = (case tile_pos (realm_map rl) (fst (pos e)) (snd (pos e)) of Inr p \<Rightarrow> True | Inl err \<Rightarrow> False)"

definition dead_at :: "realm \<Rightarrow> (int \<times> entity) list \<Rightarrow> cell \<Rightarrow> int list" where
  "dead_at rl es p =
     map fst (filter (\<lambda>(k, e). \<not> alive e \<and> tile_pos (realm_map rl) (fst (pos e)) (snd (pos e)) = Inr p) es)"

section \<open>Skills (\<open>nmmo/systems/skill.py\<close>)\<close>

datatype skill_kind =
  Food_skill | Water_skill | Fishing | Herbalism | Prospecting | Carving | Alchemy
  | Melee | Range | Mage

record skill =
  kind :: skill_kind
  exp :: int
  level :: int

text \<open>
  The collaborators of the skills that are not among the sources are parameters:
  \<open>Tile.harvest\<close>; \<open>dropTable.roll(realm, level)\<close>; the tool class \<open>matl.tool\<close> of a
  material; and \<open>expCalc.levelAtExp\<close>.  A loot table is an object, so it is true in a
  condition; \<open>None\<close> is false.

  Float arithmetic is not modelled.  \<open>floor_of_product a b\<close> stands for
  \<open>np.floor(a * b)\<close> with \<open>a\<close> an integer and \<open>b\<close> a float (given by its exact value):
  the product is rounded as the machine rounds it, so the operation is a parameter
  and not the floor of the exact product; its result, a float with an integral value,
  is identified with that integer.
\<close>

record 'l collab =
  tile_harvest :: "bool \<Rightarrow> tile \<Rightarrow> 'l option \<times> tile"
  roll :: "'l \<Rightarrow> int \<Rightarrow> item list"
  tool_of :: "material \<Rightarrow> string option"
  levelAtExp :: "int \<Rightarrow> int"
  floor_of_product :: "int \<Rightarrow> rat \<Rightarrow> int"

definition add_xp :: "'l collab \<Rightarrow> config \<Rightarrow> skill \<Rightarrow> int \<Rightarrow> skill" where
  "add_xp x cfg s xp =
     (let e = exp s + xp * PROGRESSION_BASE_XP_SCALE cfg
      in s\<lparr>exp := e, level := levelAtExp x e\<rparr>)"

text \<open>
  Modelled from the spec: \<open>inventory.space\<close> and \<open>inventory.receive\<close> of the missing
  inventory; drops are deposited while space remains.
\<close>

definition space :: "entity \<Rightarrow> bool" where
  "space e = (length (inventory e) < capacity e)"

definition receive :: "item \<Rightarrow> entity \<Rightarrow> entity" where
  "receive d e = e\<lparr>inventory := inventory e @ [d]\<rparr>"

definition processDrops ::
  "'l collab \<Rightarrow> config \<Rightarrow> skill \<Rightarrow> entity \<Rightarrow> material \<Rightarrow> 'l \<Rightarrow> skill \<times> entity" where
  "processDrops x cfg s e matl dropTable =
     (let lvl = (case held e of
                   None \<Rightarrow> 1
                 | Some (cls, l) \<Rightarrow> if tool_of x matl = Some cls then l else 1);
          e1 = fold (\<lambda>d e'. if space e' then receive d e' else e') (roll x dropTable lvl) e;
          s1 = (if kind s \<noteq> Food_skill \<and> kind s \<noteq> Water_skill
                then add_xp x cfg s (PROGRESSION_HARVEST_XP_SCALE cfg) else s)
      in (s1, e1))"

text \<open>
  The skill methods return \<open>True\<close> or fall off the end (\<open>None\<close>, false in a
  condition): a \<open>bool\<close>, next to the map, the skill and the entity afterwards.
\<close>

definition finish_harvest ::
  "'l collab \<Rightarrow> config \<Rightarrow> skill \<Rightarrow> entity \<Rightarrow> material \<Rightarrow> 'l option \<times> tmap \<Rightarrow> bool \<times> tmap \<times> skill \<times> entity" where
  "finish_harvest x cfg s e matl res =
     (case res of
        (None, m) \<Rightarrow> (False, m, s, e)
      | (Some dropTable, m) \<Rightarrow>
          (let (s1, e1) = processDrops x cfg s e matl dropTable in (True, m, s1, e1)))"


text \<open>
  One of the four \<open>if\<close> statements of \<open>harvestAdjacent\<close>: when the tile at
  \<open>(r, c)\<close> is in the required state, \<open>dropTable\<close> becomes what \<open>Map.harvest\<close>
  returns there; otherwise \<open>dropTable\<close> and the map stay as they are.
\<close>

definition harvest_if ::
  "'l collab \<Rightarrow> material \<Rightarrow> bool \<Rightarrow> int \<Rightarrow> int \<Rightarrow> 'l option \<times> tmap \<Rightarrow> error + ('l option \<times> tmap)" where
  "harvest_if x matl deplete r c dm =
     (case dm of (dropTable, m) \<Rightarrow>
        bind_err (tile_pos m r c) (\<lambda>p.
          if state (tiles m p) = matl then Map_harvest (tile_harvest x) m r c deplete
          else Inr (dropTable, m)))"

definition harvestAdjacent ::
  "'l collab \<Rightarrow> config \<Rightarrow> skill \<Rightarrow> tmap \<Rightarrow> entity \<Rightarrow> material \<Rightarrow> bool \<Rightarrow> error + (bool \<times> tmap \<times> skill \<times> entity)" where
  "harvestAdjacent x cfg s m e matl deplete =
     (let (r, c) = pos e
      in bind_err (harvest_if x matl deplete (r - 1) c (None, m)) (\<lambda>dm1.
         bind_err (harvest_if x matl deplete (r + 1) c dm1) (\<lambda>dm2.
         bind_err (harvest_if x matl deplete r (c - 1) dm2) (\<lambda>dm3.
         bind_err (harvest_if x matl deplete r (c + 1) dm3) (\<lambda>dm4.
           Inr (finish_harvest x cfg s e matl dm4))))))"



text \<open>
  What \<open>Map.harvest\<close> returns at a cell, and the map afterwards, when it does not
  raise: the tile's loot, the tile registered in the update list (with \<open>deplete\<close>)
  and replaced by what \<open>Tile.harvest\<close> leaves.
\<close>

definition harvested ::
  "(bool \<Rightarrow> tile \<Rightarrow> 'l option \<times> tile) \<Rightarrow> bool \<Rightarrow> cell \<Rightarrow> tmap \<Rightarrow> 'l option \<times> tmap" where
  "harvested th deplete p m =
     (fst (th deplete (tiles m p)),
      m\<lparr>update_list := (if deplete then map_option (os_add p) (update_list m) else update_list m),
        tiles := (tiles m)(p := snd (th deplete (tiles m p)))\<rparr>)"

text \<open>One \<open>if\<close> statement of \<open>harvestAdjacent\<close> at a cell inside the grid.\<close>

definition visit ::
  "'l collab \<Rightarrow> material \<Rightarrow> bool \<Rightarrow> cell \<Rightarrow> 'l option \<times> tmap \<Rightarrow> 'l option \<times> tmap" where
  "visit x matl deplete p dm =
     (if state (tiles (snd dm) p) = matl then harvested (tile_harvest x) deplete p (snd dm) else dm)"

text \<open>
  The neighbours of \<open>(r, c)\<close> that hold the required material when \<open>harvestAdjacent\<close>
  is called, in the order checked: up, down, left, right.
\<close>

definition matching :: "tmap \<Rightarrow> material \<Rightarrow> int \<Rightarrow> int \<Rightarrow> cell list" where
  "matching m matl r c =
     filter (\<lambda>p. state (tiles m p) = matl)
       [(nat (r - 1), nat c), (nat (r + 1), nat c), (nat r, nat (c - 1)), (nat r, nat (c + 1))]"

text \<open>
  Harvesting every cell of a list: each cell's tile is replaced by what
  \<open>Tile.harvest\<close> leaves, each cell is registered (with \<open>deplete\<close>) in list order, and
  the loot is that of the last cell (nothing for the empty list).
\<close>

definition harvest_all ::
  "(bool \<Rightarrow> tile \<Rightarrow> 'l option \<times> tile) \<Rightarrow> bool \<Rightarrow> cell list \<Rightarrow> tmap \<Rightarrow> 'l option \<times> tmap" where
  "harvest_all th deplete ps m =
     (if ps = [] then None else fst (th deplete (tiles m (last ps))),
      m\<lparr>update_list := (if deplete then map_option (\<lambda>ul. fold os_add ps ul) (update_list m)
                         else update_list m),
        tiles := (\<lambda>p. if p \<in> set ps then snd (th deplete (tiles m p)) else tiles m p)\<rparr>)"

section \<open>Game state snapshots (\<open>nmmo/task/game_state.py\<close>)\<close>

text \<open>
  The tables are numpy arrays, objects that the live datastore mutates in place and
  that a snapshot could share with it.  So arrays live in a store, at addresses:
  \<open>cells\<close> holds the allocated arrays and \<open>next_addr\<close> is the first free address.
  Reading an address that holds nothing does not happen in Python (a reference keeps
  its object alive); the model answers KeyError.
\<close>

record heap =
  next_addr :: nat
  cells :: "nat \<rightharpoonup> int ndarray2"

definition heap_read :: "heap \<Rightarrow> nat \<Rightarrow> error + int ndarray2" where
  "heap_read h a = (case cells h a of None \<Rightarrow> Inl KeyError | Some arr \<Rightarrow> Inr arr)"

definition heap_write :: "nat \<times> int ndarray2 \<Rightarrow> heap \<Rightarrow> heap" where
  "heap_write w h = h\<lparr>cells := (cells h)(fst w \<mapsto> snd w)\<rparr>"

text \<open>\<open>arr.copy()\<close>: a new array with the same contents, at a fresh address.\<close>

definition np_copy :: "heap \<Rightarrow> nat \<Rightarrow> error + (nat \<times> heap)" where
  "np_copy h a =
     bind_err (heap_read h a) (\<lambda>arr.
       Inr (next_addr h, h\<lparr>next_addr := Suc (next_addr h), cells := (cells h)(next_addr h \<mapsto> arr)\<rparr>))"

text \<open>\<open>arr[:, col]\<close> and \<open>arr[idxs]\<close> with a list of row numbers.\<close>

definition np_column :: "int ndarray2 \<Rightarrow> nat \<Rightarrow> error + int list" where
  "np_column a col =
     (if col < snd (shape a) then Inr (map (\<lambda>r. r ! col) (rows a)) else Inl IndexError)"

definition np_take :: "int ndarray2 \<Rightarrow> nat list \<Rightarrow> error + int ndarray2" where
  "np_take a idxs =
     (if list_all (\<lambda>i. i < fst (shape a)) idxs
      then Inr \<lparr>shape = (length idxs, snd (shape a)), rows = map (\<lambda>i. rows a ! i) idxs\<rparr>
      else Inl IndexError)"

text \<open>
  Modelled from the spec: \<open>EntityState.Query.table\<close>, \<open>ItemState.Query.table\<close> and
  \<open>EventState.Query.table\<close> of the missing datastore hand out the live tables; the
  datastore is the addresses of the three live tables.  The column maps
  \<open>EntityAttr\<close>, \<open>ItemAttr\<close> and \<open>EventAttr\<close> and the event codes \<open>EventCode\<close> are
  parameters.
\<close>

record datastore =
  entity_table :: nat
  item_table :: nat
  event_table :: nat

record attrs =
  EntityAttr :: "string \<rightharpoonup> nat"
  ItemAttr :: "string \<rightharpoonup> nat"
  EventAttr :: "string \<rightharpoonup> nat"
  EventCode :: "string \<rightharpoonup> int"

definition attr_col :: "(string \<rightharpoonup> nat) \<Rightarrow> string \<Rightarrow> error + nat" where
  "attr_col mapping name = (case mapping name of None \<Rightarrow> Inl KeyError | Some c \<Rightarrow> Inr c)"

text \<open>
  The shared cache \<open>cache_result\<close> is one dictionary: \<open>where_in_id\<close> stores arrays
  under \<open>(data_type, subject)\<close> and the views store columns, and the event view its
  per-code views, under \<open>(subject, name_attr)\<close>.  A subject is the tuple of its
  agents' ids.  Indexing a table with a list of rows or with a mask builds a new
  array, so what the cache holds are values that no table shares.
\<close>

datatype cache_key = Where_key string "int list" | View_key "int list" string

datatype cache_val = Arr "int ndarray2" | Col "int list"

record 'o game_state =
  current_tick :: int
  gs_config :: config
  spawn_pos :: "int \<rightharpoonup> coord"
  alive_agents :: "int set"
  env_obs :: "int \<rightharpoonup> 'o"
  entity_data :: nat
  entity_index :: "int \<rightharpoonup> nat list"
  item_data :: nat
  item_index :: "int \<rightharpoonup> nat list"
  event_data :: nat
  event_index :: "int \<rightharpoonup> nat list"
  cache_result :: "cache_key \<rightharpoonup> cache_val"

text \<open>\<open>GameStateGenerator._precompute_index\<close>: the loop, then the method.\<close>

fun index_loop :: "nat \<Rightarrow> int list \<Rightarrow> (int \<rightharpoonup> nat list) \<Rightarrow> (int \<rightharpoonup> nat list)" where
  "index_loop row [] index = index"
| "index_loop row (i # ids) index =
     index_loop (Suc row) ids
       (case index i of
          Some rs \<Rightarrow> index(i \<mapsto> rs @ [row])
        | None \<Rightarrow> index(i \<mapsto> [row]))"

definition precompute_index :: "int ndarray2 \<Rightarrow> nat \<Rightarrow> error + (int \<rightharpoonup> nat list)" where
  "precompute_index table id_col =
     bind_err (np_column table id_col) (\<lambda>ids. Inr (index_loop 0 ids Map.empty))"

text \<open>\<open>GameStateGenerator.generate\<close>; \<open>tick\<close> is \<open>realm.tick\<close>.\<close>

definition generate ::
  "attrs \<Rightarrow> config \<Rightarrow> (int \<rightharpoonup> coord) \<Rightarrow> heap \<Rightarrow> datastore \<Rightarrow> int \<Rightarrow> (int \<rightharpoonup> 'o) \<Rightarrow> error + ('o game_state \<times> heap)" where
  "generate ac cfg sp h ds tick obs =
     bind_err (np_copy h (entity_table ds)) (\<lambda>(ea, h1).
     bind_err (heap_read h1 ea) (\<lambda>entity_all.
     bind_err (attr_col (EntityAttr ac) ''id'') (\<lambda>idc.
     bind_err (np_column entity_all idc) (\<lambda>ids.
     bind_err (np_copy h1 (item_table ds)) (\<lambda>(ia, h2).
     bind_err (heap_read h2 ia) (\<lambda>item_all.
     bind_err (np_copy h2 (event_table ds)) (\<lambda>(va, h3).
     bind_err (heap_read h3 va) (\<lambda>event_all.
     bind_err (precompute_index entity_all idc) (\<lambda>eix.
     bind_err (attr_col (ItemAttr ac) ''owner_id'') (\<lambda>oc.
     bind_err (precompute_index item_all oc) (\<lambda>iix.
     bind_err (attr_col (EventAttr ac) ''ent_id'') (\<lambda>vc.
     bind_err (precompute_index event_all vc) (\<lambda>vix.
       Inr (\<lparr> current_tick = tick,
              gs_config = cfg,
              spawn_pos = sp,
              alive_agents = set (filter (\<lambda>i. 0 < i) ids),
              env_obs = obs,
              entity_data = ea,
              entity_index = eix,
              item_data = ia,
              item_index = iix,
              event_data = va,
              event_index = vix,
              cache_result = Map.empty \<rparr>, h3))))))))))))))"

text \<open>
  \<open>GameState.where_in_id\<close>.  \<open>index_get\<close> is \<open>index.get(sbj, [])\<close>; \<open>lookup\<close> is one
  of the three branches: the rows of every subject id, in order, taken from the table
  and stored in the cache.
\<close>

definition index_get :: "(int \<rightharpoonup> nat list) \<Rightarrow> int \<Rightarrow> nat list" where
  "index_get index sbj = (case index sbj of None \<Rightarrow> [] | Some rs \<Rightarrow> rs)"

definition lookup ::
  "heap \<Rightarrow> nat \<Rightarrow> (int \<rightharpoonup> nat list) \<Rightarrow> cache_key \<Rightarrow> int list \<Rightarrow> 'o game_state \<Rightarrow> error + 'o game_state" where
  "lookup h data index k subject gs =
     (let flt_idx = concat (map (index_get index) subject)
      in bind_err (heap_read h data) (\<lambda>table.
         bind_err (np_take table flt_idx) (\<lambda>res.
           Inr (gs\<lparr>cache_result := (cache_result gs)(k \<mapsto> Arr res)\<rparr>))))"

definition where_in_id ::
  "heap \<Rightarrow> 'o game_state \<Rightarrow> string \<Rightarrow> int list \<Rightarrow> error + (cache_val \<times> 'o game_state)" where
  "where_in_id h gs data_type subject =
     (let k = Where_key data_type subject
      in case cache_result gs k of
           Some v \<Rightarrow> Inr (v, gs)
         | None \<Rightarrow>
             bind_err (if data_type = ''entity''
                       then lookup h (entity_data gs) (entity_index gs) k subject gs else Inr gs) (\<lambda>gs1.
             bind_err (if data_type = ''item''
                       then lookup h (item_data gs1) (item_index gs1) k subject gs1 else Inr gs1) (\<lambda>gs2.
             bind_err (if data_type = ''event''
                       then lookup h (event_data gs2) (event_index gs2) k subject gs2 else Inr gs2) (\<lambda>gs3.
               if data_type \<in> {''entity'', ''item'', ''event''}
               then (case cache_result gs3 k of
                       None \<Rightarrow> Inl KeyError
                     | Some v \<Rightarrow> Inr (v, gs3))
               else Inl ValueError))))"

text \<open>
  The views of a subject.  \<open>column_of\<close> is \<open>arr[:, col]\<close> on a cached array (a
  one-dimensional array has no second axis).  \<open>array_field\<close> is
  \<open>ArrayView.__getattr__\<close> for the views whose \<open>get_attribute\<close> projects a column
  (\<open>EntityView\<close>, \<open>ItemView\<close>, \<open>EventCodeView\<close>): the field of the view called
  \<open>name\<close> over the array \<open>arr\<close> is computed once and cached under
  \<open>(subject, name_attr)\<close>.
\<close>

definition column_of :: "cache_val \<Rightarrow> nat \<Rightarrow> error + int list" where
  "column_of v col = (case v of Arr a \<Rightarrow> np_column a col | Col _ \<Rightarrow> Inl IndexError)"

definition array_field ::
  "(string \<rightharpoonup> nat) \<Rightarrow> string \<Rightarrow> cache_val \<Rightarrow> 'o game_state \<Rightarrow> int list \<Rightarrow> string \<Rightarrow> error + (cache_val \<times> 'o game_state)" where
  "array_field mapping name arr gs subject attr =
     (let k = View_key subject (name @ ''_'' @ attr)
      in case cache_result gs k of
           Some v \<Rightarrow> Inr (v, gs)
         | None \<Rightarrow>
             bind_err (attr_col mapping attr) (\<lambda>col.
             bind_err (column_of arr col) (\<lambda>v.
               Inr (Col v, gs\<lparr>cache_result := (cache_result gs)(k \<mapsto> Col v)\<rparr>))))"

text \<open>
  \<open>GroupView(gs, subject).entity.attr\<close> and \<open>GroupView(gs, subject).item.attr\<close>: the
  view's array is \<open>where_in_id\<close> of the subject's agents.
\<close>

definition entity_field ::
  "attrs \<Rightarrow> heap \<Rightarrow> 'o game_state \<Rightarrow> int list \<Rightarrow> string \<Rightarrow> error + (cache_val \<times> 'o game_state)" where
  "entity_field ac h gs subject attr =
     bind_err (where_in_id h gs ''entity'' subject) (\<lambda>(arr, gs1).
       array_field (EntityAttr ac) ''entity'' arr gs1 subject attr)"

definition item_field ::
  "attrs \<Rightarrow> heap \<Rightarrow> 'o game_state \<Rightarrow> int list \<Rightarrow> string \<Rightarrow> error + (cache_val \<times> 'o game_state)" where
  "item_field ac h gs subject attr =
     bind_err (where_in_id h gs ''item'' subject) (\<lambda>(arr, gs1).
       array_field (ItemAttr ac) ''item'' arr gs1 subject attr)"

text \<open>
  \<open>GroupView(gs, subject).event.code\<close>: \<open>EventView.get_attribute\<close> asserts that the
  code exists, keeps the rows whose \<open>event\<close> column holds the code, and wraps them in
  an \<open>EventCodeView\<close> named after the code, which \<open>__getattr__\<close> caches;
  \<open>GroupView(gs, subject).event.code.attr\<close> is a field of that view.
\<close>

definition rows_with :: "int ndarray2 \<Rightarrow> nat \<Rightarrow> int \<Rightarrow> int ndarray2" where
  "rows_with a col code =
     \<lparr>shape = (length (filter (\<lambda>r. r ! col = code) (rows a)), snd (shape a)),
      rows = filter (\<lambda>r. r ! col = code) (rows a)\<rparr>"

definition event_code_view ::
  "attrs \<Rightarrow> heap \<Rightarrow> 'o game_state \<Rightarrow> int list \<Rightarrow> string \<Rightarrow> error + (cache_val \<times> 'o game_state)" where
  "event_code_view ac h gs subject code =
     bind_err (where_in_id h gs ''event'' subject) (\<lambda>(arr, gs1).
       (let k = View_key subject (''event_'' @ code)
        in case cache_result gs1 k of
             Some v \<Rightarrow> Inr (v, gs1)
           | None \<Rightarrow>
               (case EventCode ac code of
                  None \<Rightarrow> Inl AssertionError
                | Some cv \<Rightarrow>
                    bind_err (attr_col (EventAttr ac) ''event'') (\<lambda>col.
                    bind_err (column_of arr col) (\<lambda>_.
                      (case arr of
                         Col _ \<Rightarrow> Inl IndexError
                       | Arr a \<Rightarrow>
                           Inr (Arr (rows_with a col cv),
                                gs1\<lparr>cache_result :=
                                      (cache_result gs1)(k \<mapsto> Arr (rows_with a col cv))\<rparr>)))))))"

definition event_field ::
  "attrs \<Rightarrow> heap \<Rightarrow> 'o game_state \<Rightarrow> int list \<Rightarrow> string \<Rightarrow> string \<Rightarrow> error + (cache_val \<times> 'o game_state)" where
  "event_field ac h gs subject code attr =
     bind_err (event_code_view ac h gs subject code) (\<lambda>(view, gs1).
       array_field (EventAttr ac) code view gs1 subject attr)"

text \<open>
  The concatenation, in subject order, of the indexed rows of each id: what the
  specification says \<open>where_in_id\<close> returns on a first call.
\<close>

definition indexed_rows :: "int ndarray2 \<Rightarrow> (int \<rightharpoonup> nat list) \<Rightarrow> int list \<Rightarrow> int list list" where
  "indexed_rows table index subject =
     concat (map (\<lambda>sbj. map (\<lambda>row. rows table ! row) (index_get index sbj)) subject)"

text \<open>
  A well-formed snapshot in a store: each table is allocated, each index names rows of
  its table only, and the cache holds \<open>where_in_id\<close> entries for the three table names
  only.  \<open>generate\<close> establishes this and the queries keep it.
\<close>

definition index_ok :: "heap \<Rightarrow> nat \<Rightarrow> (int \<rightharpoonup> nat list) \<Rightarrow> bool" where
  "index_ok h data index =
     (\<exists>table. cells h data = Some table \<and>
        (\<forall>k rs. index k = Some rs \<longrightarrow> list_all (\<lambda>i. i < fst (shape table)) rs))"

definition snapshot_ok :: "heap \<Rightarrow> 'o game_state \<Rightarrow> bool" where
  "snapshot_ok h gs =
     (index_ok h (entity_data gs) (entity_index gs) \<and>
      index_ok h (item_data gs) (item_index gs) \<and>
      index_ok h (event_data gs) (event_index gs) \<and>
      (\<forall>t s. cache_result gs (Where_key t s) \<noteq> None \<longrightarrow> t \<in> {''entity'', ''item'', ''event''}))"

text \<open>
  For the statements about \<open>where_in_id\<close>: the three table names, and the table
  and the index that a name selects.
\<close>

definition table_names :: "string set" where
  "table_names = {''entity'', ''item'', ''event''}"

definition table_of :: "'o game_state \<Rightarrow> string \<Rightarrow> nat" where
  "table_of gs t = (if t = ''entity'' then entity_data gs else if t = ''item'' then item_data gs else event_data gs)"

definition index_of :: "'o game_state \<Rightarrow> string \<Rightarrow> (int \<rightharpoonup> nat list)" where
  "index_of gs t = (if t = ''entity'' then entity_index gs else if t = ''item'' then item_index gs else event_index gs)"

text \<open>
  The representation invariant of an array (its rows agree with its shape), and a
  store all of whose arrays satisfy it.
\<close>

definition array_ok :: "'a ndarray2 \<Rightarrow> bool" where
  "array_ok a = (length (rows a) = fst (shape a) \<and> list_all (\<lambda>r. length r = snd (shape a)) (rows a))"

definition heap_ok :: "heap \<Rightarrow> bool" where
  "heap_ok h = (\<forall>a arr. cells h a = Some arr \<longrightarrow> array_ok arr)"

section \<open>A small world for the examples\<close>

text \<open>
  A 3 by 3 map and the collaborators used by the concrete examples below.  The terrain
  collaborators pass the raw grid through; \<open>Tile.reset\<close> re-initialises a tile for
  its material.
\<close>

definition cfg0 :: config where
  "cfg0 = \<lparr> MAP_SIZE = 3, MAP_CENTER = 1, MAP_BORDER = 1, PLAYER_VISION_RADIUS = 0,
      TERRAIN_SYSTEM_ENABLED = True, MAP_RESET_FROM_FRACTAL = False,
      PROFESSION_SYSTEM_ENABLED = False, TERRAIN_DISABLE_STONE = False,
      ITEM_SYSTEM_ENABLED = True, NPC_SYSTEM_ENABLED = True, NPC_SPAWN_ATTEMPTS = 2,
      NPC_N = 2, RESOURCE_SYSTEM_ENABLED = True, RESOURCE_DEPLETION_RATE = 5,
      RESOURCE_BASE = 100, RESOURCE_HARVEST_RESTORE_FRACTION = 1 / 4,
      PROGRESSION_BASE_XP_SCALE = 1, PROGRESSION_HARVEST_XP_SCALE = 1 \<rparr>"

definition blank :: "material \<Rightarrow> tile" where
  "blank mat =
     \<lparr> state = mat, depleted = False, countdown = 0, habitable = (mat = Grass), occupants = {} \<rparr>"

definition te0 :: "unit terrain" where
  "te0 = \<lparr> fractal_to_material = (\<lambda>cfg f. \<lparr>shape = (0, 0), rows = []\<rparr>),
           spawn_profession_resources = (\<lambda>cfg a. a),
           process_map_border = (\<lambda>cfg a. a),
           grass_index = 1, stone_index = 2,
           materials = [0 \<mapsto> Void, 1 \<mapsto> Grass, 2 \<mapsto> Stone, 3 \<mapsto> Forest, 4 \<mapsto> Fish],
           tile_reset = (\<lambda>mat cfg t. blank mat) \<rparr>"

definition md0 :: "unit map_dict" where
  "md0 = \<lparr> map_arr = \<lparr>shape = (3, 3), rows = [[0, 0, 0], [0, 1, 0], [0, 0, 0]]\<rparr>,
           fractal = () \<rparr>"

text \<open>A freshly built map whose pathfinding cache has since received one path.\<close>

definition m_cached :: tmap where
  "m_cached =
     (Map_init cfg0 (\<lambda>r c. blank Void))\<lparr>pathfinding_cache := [((1, 1), (1, 2)) \<mapsto> [(1, 2)]]\<rparr>"

text \<open>
  A map whose centre tile is a depleted forest, one step before its countdown
  completes, and registered in the update list.
\<close>

definition m_regen :: tmap where
  "m_regen =
     (Map_init cfg0 (\<lambda>r c. if (r, c) = (1, 1)
                            then (blank Forest)\<lparr>depleted := True, countdown := 1\<rparr>
                            else blank Void))
       \<lparr>update_list := Some [(1, 1)]\<rparr>"

text \<open>A reset map of grass, nothing registered.\<close>

definition m_grass :: tmap where
  "m_grass = (Map_init cfg0 (\<lambda>r c. blank Grass))\<lparr>update_list := Some []\<rparr>"

text \<open>
  Collaborators for the skill examples: tiles behave as modelled from the spec (three
  ticks to regrow), every roll drops one item, and no material has a tool.  The only
  float product the examples take is \<open>100 * 0.25\<close>, which is exactly 25.
\<close>

definition x0 :: "material collab" where
  "x0 = \<lparr> tile_harvest = spec_tile_harvest 3,
           roll = (\<lambda>l lvl. [7]),
           tool_of = (\<lambda>m. None),
           levelAtExp = (\<lambda>e. 1 + e div 10),
           floor_of_product = (\<lambda>a b. 25) \<rparr>"

text \<open>A reset map of grass with fish above and below the centre.\<close>

definition m_fish :: tmap where
  "m_fish =
     (Map_init cfg0 (\<lambda>r c. if (r, c) = (0, 1) \<or> (r, c) = (2, 1) then blank Fish else blank Grass))
       \<lparr>update_list := Some []\<rparr>"


text \<open>An entity on the centre tile, and three of its skills.\<close>

definition e0 :: entity where
  "e0 = \<lparr> ent_id = 1, alive = True, pos = (1, 1), spawn_danger = 0, inventory = [],
           capacity = 2, held = None,
           food = \<lparr>val = 50, max_val = 100\<rparr>, water = \<lparr>val = 50, max_val = 100\<rparr> \<rparr>"


definition fishing0 :: skill where
  "fishing0 = \<lparr> kind = Fishing, exp = 0, level = 1 \<rparr>"



text \<open>
  A realm whose map has entity 1 on the centre tile and entity 2 to its right; entity 2
  is dead.  \<open>g0\<close> registers both and still holds a stale entry in \<open>dead_this_tick\<close>;
  \<open>g_alive\<close> registers the live one only.
\<close>

definition e_dead :: entity where
  "e_dead = \<lparr> ent_id = 2, alive = False, pos = (1, 2), spawn_danger = 3 / 4, inventory = [5],
               capacity = 2, held = None,
               food = \<lparr>val = 0, max_val = 100\<rparr>, water = \<lparr>val = 10, max_val = 100\<rparr> \<rparr>"

definition rl0 :: realm where
  "rl0 = \<lparr> realm_map = m_grass\<lparr>tiles := (tiles m_grass)
                                   ((1, 1) := add_entity 1 (blank Grass),
                                    (1, 2) := add_entity 2 (blank Grass))\<rparr>,
            effects = [] \<rparr>"

definition g0 :: group where
  "g0 = \<lparr> entities = [(1, e0), (2, e_dead)], dead_this_tick = [(7, e_dead\<lparr>ent_id := 7\<rparr>)] \<rparr>"

definition g_alive :: group where
  "g_alive = \<lparr> entities = [(1, e0)], dead_this_tick = [(2, e_dead)] \<rparr>"

text \<open>
  Collaborators for the spawn examples.  The generator state is the list of danger
  values handed to \<open>combat.spawn\<close> so far (\<open>None\<close> for a uniform draw), so that it
  shows what each placement was biased toward; \<open>NPC.spawn\<close> always succeeds.  \<open>mg0\<close>
  is an empty manager and \<open>mg_full\<close> a manager at its target of two, both with the
  danger values 1/4 and then 3/4 recorded.
\<close>

definition npc_at :: "coord \<Rightarrow> int \<Rightarrow> entity" where
  "npc_at rc i = \<lparr> ent_id = i, alive = True, pos = rc, spawn_danger = 1 / 2, inventory = [],
                   capacity = 0, held = None,
                   food = \<lparr>val = 100, max_val = 100\<rparr>, water = \<lparr>val = 100, max_val = 100\<rparr> \<rparr>"

definition sp0 :: "rat option list spawner" where
  "sp0 = \<lparr> combat_spawn = (\<lambda>cfg d used. ((1, 1), used @ [Some d])),
            randint2 = (\<lambda>lo hi used. ((lo, lo), used @ [None])),
            NPC_spawn = (\<lambda>rl rc i used. (Some (npc_at rc i), used)) \<rparr>"

definition rl_grass :: realm where
  "rl_grass = \<lparr> realm_map = m_grass, effects = [] \<rparr>"

definition mg0 :: npc_manager where
  "mg0 = \<lparr> entities = [], dead_this_tick = [], next_id = - 1, spawn_dangers = [1 / 4, 3 / 4] \<rparr>"

definition mg_full :: npc_manager where
  "mg_full = \<lparr> entities = [(- 1, npc_at (1, 1) (- 1)), (- 2, npc_at (1, 2) (- 2))],
               dead_this_tick = [], next_id = - 3, spawn_dangers = [1 / 4, 3 / 4] \<rparr>"

text \<open>
  A store with three live tables (the id of an entity, the owner of an item and the
  entity of an event are columns 0, 1 and 0; the code of an event is column 1), the
  datastore that points at them, and a snapshot of them written out by hand.
\<close>

definition ac0 :: attrs where
  "ac0 = \<lparr> EntityAttr = [''id'' \<mapsto> 0, ''health'' \<mapsto> 1],
            ItemAttr = [''id'' \<mapsto> 0, ''owner_id'' \<mapsto> 1],
            EventAttr = [''ent_id'' \<mapsto> 0, ''event'' \<mapsto> 1],
            EventCode = [''EAT_FOOD'' \<mapsto> 5, ''DRINK_WATER'' \<mapsto> 6, ''GO_FARTHEST'' \<mapsto> 7] \<rparr>"

definition tbl_entity :: "int ndarray2" where
  "tbl_entity = \<lparr> shape = (3, 2), rows = [[1, 90], [2, 80], [- 1, 50]] \<rparr>"

definition tbl_item :: "int ndarray2" where
  "tbl_item = \<lparr> shape = (3, 2), rows = [[10, 1], [11, 1], [12, 2]] \<rparr>"

definition tbl_event :: "int ndarray2" where
  "tbl_event = \<lparr> shape = (3, 2), rows = [[1, 5], [2, 6], [1, 7]] \<rparr>"

definition tbl_zero :: "int ndarray2" where
  "tbl_zero = \<lparr> shape = (3, 2), rows = [[0, 0], [0, 0], [0, 0]] \<rparr>"

definition h0 :: heap where
  "h0 = \<lparr> next_addr = 3, cells = [0 \<mapsto> tbl_entity, 1 \<mapsto> tbl_item, 2 \<mapsto> tbl_event] \<rparr>"

definition ds0 :: datastore where
  "ds0 = \<lparr> entity_table = 0, item_table = 1, event_table = 2 \<rparr>"

definition snap0 :: "unit game_state" where
  "snap0 = \<lparr> current_tick = 7, gs_config = cfg0, spawn_pos = Map.empty, alive_agents = {1, 2},
              env_obs = Map.empty,
              entity_data = 0, entity_index = [1 \<mapsto> [0], 2 \<mapsto> [1], - 1 \<mapsto> [2]],
              item_data = 1, item_index = [1 \<mapsto> [0, 1], 2 \<mapsto> [2]],
              event_data = 2, event_index = [1 \<mapsto> [0, 2], 2 \<mapsto> [1]],
              cache_result = Map.empty \<rparr>"

section \<open>Properties of the map\<close>

lemma reset_row_cache:
  "reset_row cfg te r c row m = Inr m' \<Longrightarrow> pathfinding_cache m' = pathfinding_cache m"
  by (induction cfg te r c row m rule: reset_row.induct)
     (auto simp: bind_err_def Let_def split: option.splits sum.splits)

lemma reset_rows_cache:
  "reset_rows cfg te r rs m = Inr m' \<Longrightarrow> pathfinding_cache m' = pathfinding_cache m"
proof (induction rs arbitrary: r m)
  case Nil
  then show ?case by simp
next
  case (Cons row rest)
  then show ?case
    by (auto simp: bind_err_def split: sum.splits dest: reset_row_cache)
qed

text \<open>
  C1 (as amended).  \<open>Map.reset\<close> does not touch the pathfinding cache: whenever
  \<open>reset\<close> returns, the cache holds exactly what it held before the call.  Only
  \<open>Map.__init__\<close> creates an empty cache.
\<close>

theorem Map_reset_keeps_pathfinding_cache:
  "Map_reset cfg te m md = Inr m' \<Longrightarrow> pathfinding_cache m' = pathfinding_cache m"
  by (auto simp: Map_reset_def Let_def split: if_splits dest: reset_rows_cache)

theorem Map_reset_keeps_pathfinding_cache_witness:
  "\<exists>m'. Map_reset cfg0 te0 m_cached md0 = Inr m' \<and> pathfinding_cache m' = pathfinding_cache m_cached"
proof -
  obtain m' where r: "Map_reset cfg0 te0 m_cached md0 = Inr m'"
    by (simp add: Map_reset_def Map_init_def m_cached_def cfg0_def te0_def md0_def
        process_map_def bind_err_def tile_pos_def np_index_def blank_def Let_def)
  from Map_reset_keeps_pathfinding_cache[OF r] r show ?thesis by blast
qed

text \<open>
  The claim as stated fails: the raw terrain is 3 by 3 as configured, the cache holds
  a path before the call, and it still holds that path after \<open>reset\<close> has returned.
\<close>

theorem Map_reset_cache_not_emptied:
  "(case Map_reset cfg0 te0 m_cached md0 of
      Inr m' \<Rightarrow> pathfinding_cache m' ((1, 1), (1, 2))
    | Inl e \<Rightarrow> None) = Some [(1, 2)]"
  by (simp add: Map_reset_def Map_init_def m_cached_def cfg0_def te0_def md0_def
      process_map_def bind_err_def tile_pos_def np_index_def blank_def Let_def)

lemma step_loop_result:
  "distinct ps \<Longrightarrow> set ps \<subseteq> set ul \<Longrightarrow>
   step_loop f ps ul ts =
     Inr (filter (\<lambda>p. p \<notin> set ps \<or> depleted (ts p)) ul,
          (\<lambda>p. if p \<in> set ps then f (ts p) else ts p))"
proof (induction ps arbitrary: ul ts)
  case Nil
  then show ?case by simp
next
  case (Cons p ps)
  let ?ul' = "if \<not> depleted (ts p) then removeAll p ul else ul"
  let ?ts' = "ts(p := f (ts p))"
  have sub: "set ps \<subseteq> set ?ul'" using Cons.prems by auto
  have d: "distinct ps" and np: "p \<notin> set ps" using Cons.prems by auto
  have step: "step_loop f (p # ps) ul ts = step_loop f ps ?ul' ?ts'"
    using Cons.prems by (simp add: bind_err_def os_remove_def)
  have fl: "filter (\<lambda>q. q \<notin> set ps \<or> depleted (?ts' q)) ?ul' =
            filter (\<lambda>q. q \<notin> set (p # ps) \<or> depleted (ts q)) ul"
    using np by (auto simp: removeAll_filter_not_eq intro!: filter_cong)
  have tl: "(\<lambda>q. if q \<in> set ps then f (?ts' q) else ?ts' q) =
            (\<lambda>q. if q \<in> set (p # ps) then f (ts q) else ts q)"
    using np by auto
  show ?case
    unfolding step Cons.IH[OF d sub] fl tl ..
qed

text \<open>
  C3 (as amended).  \<open>Map.step\<close> looks at a tile's \<open>depleted\<close> flag before it calls the
  tile's own \<open>step\<close>.  So a call removes from the pending-regeneration set exactly the
  tiles that were already not depleted when the call started, steps every tile of the
  set once, and keeps every tile that was depleted at the start in the set, also when
  the tile's \<open>step\<close> restores it during this call; such a tile leaves the set in the
  next call.
\<close>

theorem Map_step_result:
  assumes "update_list m = Some ul" and "distinct ul"
  shows "Map_step tile_step m =
     Inr (m\<lparr>update_list := Some (filter (\<lambda>p. depleted (tiles m p)) ul),
            tiles := (\<lambda>p. if p \<in> set ul then tile_step (tiles m p) else tiles m p)\<rparr>)"
proof -
  have fl: "filter (\<lambda>p. p \<notin> set ul \<or> depleted (tiles m p)) ul =
            filter (\<lambda>p. depleted (tiles m p)) ul"
    by (rule filter_cong) auto
  have "step_loop tile_step ul ul (tiles m) =
          Inr (filter (\<lambda>p. depleted (tiles m p)) ul,
               (\<lambda>p. if p \<in> set ul then tile_step (tiles m p) else tiles m p))"
    using step_loop_result[OF assms(2) subset_refl, of tile_step "tiles m"] fl by simp
  then show ?thesis
    using assms(1) by (simp add: Map_step_def bind_err_def)
qed

theorem Map_step_result_witness:
  "update_list m_regen = Some [(1, 1)] \<and> distinct [(1::nat, 1::nat)] \<and>
   Map_step spec_tile_step m_regen =
     Inr (m_regen\<lparr>update_list := Some (filter (\<lambda>p. depleted (tiles m_regen p)) [(1, 1)]),
                  tiles := (\<lambda>p. if p \<in> set [(1, 1)] then spec_tile_step (tiles m_regen p)
                                 else tiles m_regen p)\<rparr>)"
proof -
  have a: "update_list m_regen = Some [(1, 1)]" by (simp add: m_regen_def)
  have b: "distinct [(1::nat, 1::nat)]" by simp
  show ?thesis using Map_step_result[OF a b] a by simp
qed

text \<open>
  The claim as stated fails: the centre tile is depleted and pending when the call
  starts, its regrowth condition is satisfied during the call (it is not depleted when
  the call returns), and it is still a member of the set when the call returns.
\<close>

theorem Map_step_restored_tile_stays:
  "(case Map_step spec_tile_step m_regen of
      Inr m' \<Rightarrow> (depleted (tiles m_regen (1, 1)), depleted (tiles m' (1, 1)), update_list m')
    | Inl e \<Rightarrow> (False, True, None)) = (True, False, Some [(1, 1)])"
  by (simp add: Map_step_def m_regen_def Map_init_def cfg0_def blank_def spec_tile_step_def
      bind_err_def os_remove_def)

text \<open>
  C10.  For an in-bounds position of a reset map, \<open>Map.harvest(r, c, deplete=True)\<close>
  returns normally and has added the tile at \<open>(r, c)\<close> to the pending-regeneration
  set, whatever the tile holds and whatever \<open>Tile.harvest\<close> returns: the tile is a
  member of the set afterwards also when no loot comes back.
\<close>

theorem Map_harvest_registers_tile:
  assumes "update_list m = Some ul" and "side m = MAP_SIZE cfg" and "is_valid_pos cfg r c"
  shows "Map_harvest th m r c True =
           Inr (fst (th True (tiles m (nat r, nat c))),
                m\<lparr>update_list := Some (os_add (nat r, nat c) ul),
                  tiles := (tiles m)((nat r, nat c) := snd (th True (tiles m (nat r, nat c))))\<rparr>)
         \<and> (nat r, nat c) \<in> set (os_add (nat r, nat c) ul)"
  using assms
  by (simp add: Map_harvest_def is_valid_pos_def tile_pos_def np_index_def bind_err_def
      os_add_def split: prod.splits)

theorem Map_harvest_registers_tile_witness:
  "update_list m_grass = Some [] \<and> side m_grass = MAP_SIZE cfg0 \<and> is_valid_pos cfg0 1 1 \<and>
   fst (spec_tile_harvest 3 True (tiles m_grass (1, 1))) = None \<and>
   Map_harvest (spec_tile_harvest 3) m_grass 1 1 True =
     Inr (None,
          m_grass\<lparr>update_list := Some [(1, 1)],
                  tiles := (tiles m_grass)((1, 1) := snd (spec_tile_harvest 3 True (tiles m_grass (1, 1))))\<rparr>)"
proof -
  have a: "update_list m_grass = Some []" by (simp add: m_grass_def)
  have b: "side m_grass = MAP_SIZE cfg0" by (simp add: m_grass_def Map_init_def)
  have c: "is_valid_pos cfg0 1 1" by (simp add: is_valid_pos_def cfg0_def)
  have d: "fst (spec_tile_harvest 3 True (tiles m_grass (1, 1))) = None"
    by (simp add: spec_tile_harvest_def m_grass_def Map_init_def blank_def harvestable_def)
  show ?thesis
    using Map_harvest_registers_tile[OF a b c, of "spec_tile_harvest 3"] a b c d
    by (simp add: os_add_def)
qed

section \<open>Properties of the skills\<close>

lemma Map_harvest_harvested:
  assumes "tile_pos m r c = Inr p" and "deplete \<longrightarrow> update_list m \<noteq> None"
  shows "Map_harvest th m r c deplete = Inr (harvested th deplete p m)"
  using assms
  by (cases "update_list m")
     (auto simp: Map_harvest_def harvested_def bind_err_def tile_pos_def split: prod.splits sum.splits)

lemma tile_pos_interior:
  "0 \<le> r \<Longrightarrow> r < int (side m) \<Longrightarrow> 0 \<le> c \<Longrightarrow> c < int (side m) \<Longrightarrow>
   tile_pos m r c = Inr (nat r, nat c)"
  by (simp add: tile_pos_def np_index_def bind_err_def)

lemma harvest_if_visit:
  assumes "tile_pos (snd dm) r c = Inr p" and "deplete \<longrightarrow> update_list (snd dm) \<noteq> None"
  shows "harvest_if x matl deplete r c dm = Inr (visit x matl deplete p dm)"
  using assms
  by (cases dm) (simp add: harvest_if_def visit_def bind_err_def Map_harvest_harvested)

lemma visit_side [simp]: "side (snd (visit x matl d p dm)) = side (snd dm)"
  by (simp add: visit_def harvested_def)

lemma visit_ul [simp]:
  "(update_list (snd (visit x matl d p dm)) = None) = (update_list (snd dm) = None)"
  by (cases "update_list (snd dm)") (auto simp: visit_def harvested_def)

lemma harvestAdjacent_visits:
  assumes "pos e = (r, c)" and "1 \<le> r" and "r + 1 < int (side m)"
    and "1 \<le> c" and "c + 1 < int (side m)" and "deplete \<longrightarrow> update_list m \<noteq> None"
  shows "harvestAdjacent x cfg s m e matl deplete =
     Inr (finish_harvest x cfg s e matl
            (visit x matl deplete (nat r, nat (c + 1))
              (visit x matl deplete (nat r, nat (c - 1))
                (visit x matl deplete (nat (r + 1), nat c)
                  (visit x matl deplete (nat (r - 1), nat c) (None, m))))))"
proof -
  let ?d1 = "visit x matl deplete (nat (r - 1), nat c) (None, m)"
  let ?d2 = "visit x matl deplete (nat (r + 1), nat c) ?d1"
  let ?d3 = "visit x matl deplete (nat r, nat (c - 1)) ?d2"
  have p1: "tile_pos m (r - 1) c = Inr (nat (r - 1), nat c)"
    using assms by (intro tile_pos_interior) auto
  have p2: "tile_pos (snd ?d1) (r + 1) c = Inr (nat (r + 1), nat c)"
    using assms by (intro tile_pos_interior) auto
  have p3: "tile_pos (snd ?d2) r (c - 1) = Inr (nat r, nat (c - 1))"
    using assms by (intro tile_pos_interior) auto
  have p4: "tile_pos (snd ?d3) r (c + 1) = Inr (nat r, nat (c + 1))"
    using assms by (intro tile_pos_interior) auto
  have h1: "harvest_if x matl deplete (r - 1) c (None, m) = Inr ?d1"
    using p1 assms(6) by (intro harvest_if_visit) auto
  have h2: "harvest_if x matl deplete (r + 1) c ?d1 = Inr ?d2"
    using p2 assms(6) by (intro harvest_if_visit) auto
  have h3: "harvest_if x matl deplete r (c - 1) ?d2 = Inr ?d3"
    using p3 assms(6) by (intro harvest_if_visit) auto
  have h4: "harvest_if x matl deplete r (c + 1) ?d3 = Inr (visit x matl deplete (nat r, nat (c + 1)) ?d3)"
    using p4 assms(6) by (intro harvest_if_visit) auto
  show ?thesis
    by (simp add: harvestAdjacent_def assms(1) bind_err_def h1 h2 h3 h4)
qed

lemma harvest_all_Nil: "harvest_all th deplete [] m = (None, m)"
  by (cases "update_list m") (simp_all add: harvest_all_def)

lemma fold_visit:
  "distinct ps \<Longrightarrow>
   fold (visit x matl deplete) ps (None, m) =
     harvest_all (tile_harvest x) deplete (filter (\<lambda>p. state (tiles m p) = matl) ps) m"
proof (induction ps rule: rev_induct)
  case Nil
  show ?case by (simp add: harvest_all_Nil)
next
  case (snoc p ps)
  let ?M = "filter (\<lambda>p. state (tiles m p) = matl) ps"
  have IH: "fold (visit x matl deplete) ps (None, m) = harvest_all (tile_harvest x) deplete ?M m"
    using snoc by simp
  have np0: "p \<notin> set ps" using snoc.prems by simp
  then have np: "p \<notin> set ?M" by simp
  have same: "tiles (snd (harvest_all (tile_harvest x) deplete ?M m)) p = tiles m p"
    using np0 by (simp add: harvest_all_def)
  have step: "fold (visit x matl deplete) (ps @ [p]) (None, m) =
              visit x matl deplete p (harvest_all (tile_harvest x) deplete ?M m)"
    by (simp add: IH)
  show ?case
  proof (cases "state (tiles m p) = matl")
    case False
    have "visit x matl deplete p (harvest_all (tile_harvest x) deplete ?M m) =
          harvest_all (tile_harvest x) deplete ?M m"
      using same False by (simp add: visit_def)
    then show ?thesis using step False by simp
  next
    case True
    have "visit x matl deplete p (harvest_all (tile_harvest x) deplete ?M m) =
          harvest_all (tile_harvest x) deplete (?M @ [p]) m"
      using same True np
      by (cases "update_list m")
         (auto simp: visit_def harvested_def harvest_all_def fun_eq_iff)
    then show ?thesis using step True by simp
  qed
qed

lemma visits_harvest_all:
  assumes "1 \<le> r" and "1 \<le> c"
  shows "visit x matl deplete (nat r, nat (c + 1))
              (visit x matl deplete (nat r, nat (c - 1))
                (visit x matl deplete (nat (r + 1), nat c)
                  (visit x matl deplete (nat (r - 1), nat c) (None, m))))
         = harvest_all (tile_harvest x) deplete (matching m matl r c) m"
proof -
  have d: "distinct [(nat (r - 1), nat c), (nat (r + 1), nat c), (nat r, nat (c - 1)), (nat r, nat (c + 1))]"
    using assms by auto
  show ?thesis
    using fold_visit[OF d, of x matl deplete m] by (simp add: matching_def)
qed

lemma harvestAdjacent_result:
  assumes "pos e = (r, c)" and "1 \<le> r" and "r + 1 < int (side m)"
    and "1 \<le> c" and "c + 1 < int (side m)" and "deplete \<longrightarrow> update_list m \<noteq> None"
  shows "harvestAdjacent x cfg s m e matl deplete =
     Inr (finish_harvest x cfg s e matl
            (harvest_all (tile_harvest x) deplete (matching m matl r c) m))"
  unfolding harvestAdjacent_visits[OF assms, of x cfg s matl]
    visits_harvest_all[OF assms(2) assms(4), of x matl deplete m]
  by (rule refl)





text \<open>
  C2 (as amended).  For an entity inside the grid, \<open>harvestAdjacent\<close> harvests every
  neighbour that holds the required material, not only the first: the four tests are
  independent \<open>if\<close> statements, taken in the order up, down, left, right.  Each
  matching neighbour is passed to \<open>Map.harvest\<close> (so, with \<open>deplete\<close>, registered and
  depleted), and the drop table that is processed is the one returned for the last
  matching neighbour in that order.
\<close>

theorem harvestAdjacent_harvests_every_match:
  assumes "pos e = (r, c)" and "1 \<le> r" and "r + 1 < int (side m)"
    and "1 \<le> c" and "c + 1 < int (side m)" and "deplete \<longrightarrow> update_list m \<noteq> None"
  shows "harvestAdjacent x cfg s m e matl deplete =
     Inr (finish_harvest x cfg s e matl
            (harvest_all (tile_harvest x) deplete (matching m matl r c) m))"
  using assms by (rule harvestAdjacent_result)

theorem harvestAdjacent_harvests_every_match_witness:
  "pos e0 = (1, 1) \<and> (1::int) \<le> 1 \<and> (1::int) + 1 < int (side m_fish) \<and>
   update_list m_fish \<noteq> None \<and> matching m_fish Fish 1 1 = [(0, 1), (2, 1)] \<and>
   harvestAdjacent x0 cfg0 fishing0 m_fish e0 Fish True =
     Inr (finish_harvest x0 cfg0 fishing0 e0 Fish
            (harvest_all (tile_harvest x0) True [(0, 1), (2, 1)] m_fish))"
proof -
  have a: "pos e0 = (1, 1)" by (simp add: e0_def)
  have b: "(1::int) \<le> 1" by simp
  have c: "(1::int) + 1 < int (side m_fish)" by (simp add: m_fish_def Map_init_def cfg0_def)
  have d: "True \<longrightarrow> update_list m_fish \<noteq> None" by (simp add: m_fish_def)
  have e: "matching m_fish Fish 1 1 = [(0, 1), (2, 1)]"
    by (simp add: matching_def m_fish_def Map_init_def blank_def)
  show ?thesis
    using harvestAdjacent_harvests_every_match[OF a b c b c d, of x0 cfg0 fishing0 Fish] a c d e
    by simp
qed

text \<open>
  The claim as stated fails: with fish both above and below the entity, the tile
  below (the second match) is harvested and depleted as well, and both tiles are
  registered in the update list.
\<close>

theorem harvestAdjacent_second_match_harvested:
  "(case harvestAdjacent x0 cfg0 fishing0 m_fish e0 Fish True of
      Inr (ok, m', s', e') \<Rightarrow>
        (update_list m', depleted (tiles m' (0, 1)), depleted (tiles m' (2, 1)))
    | Inl err \<Rightarrow> (None, False, False)) = (Some [(0, 1), (2, 1)], True, True)"
  by (simp add: harvestAdjacent_def harvest_if_def Map_harvest_def finish_harvest_def
      processDrops_def add_xp_def space_def receive_def
      x0_def cfg0_def fishing0_def m_fish_def e0_def Map_init_def blank_def
      spec_tile_harvest_def harvestable_def os_add_def
      tile_pos_def np_index_def bind_err_def Let_def)




section \<open>Properties of the entity groups\<close>

lemma update_new_key: "k \<notin> fst ` set d \<Longrightarrow> AList.update k v d = d @ [(k, v)]"
  by (induction d) auto

lemma delete_middle:
  "k \<notin> fst ` set A \<Longrightarrow> k \<notin> fst ` set B \<Longrightarrow> AList.delete k (A @ (k, v) # B) = A @ B"
  by (induction A) (force simp: AList.delete_eq filter_id_conv)+

lemma map_of_middle:
  "k \<notin> fst ` set A \<Longrightarrow> map_of (A @ (k, v) # B) k = Some v"
  by (induction A) auto

lemma tile_pos_on_tile [simp]: "tile_pos (realm_map (on_tile f p rl)) r c = tile_pos (realm_map rl) r c"
  by (simp add: on_tile_def tile_pos_def)

lemma cull_loop_result:
  "distinct (map fst (A @ es)) \<Longrightarrow>
   (\<forall>(k, e) \<in> set es. ent_id e = k \<and> (\<not> alive e \<longrightarrow> on_grid rl e)) \<Longrightarrow>
   entities g = A @ es \<Longrightarrow>
   fst ` set (dead_this_tick g) \<inter> fst ` set es = {} \<Longrightarrow>
   \<exists>rl'. cull_loop cfg (map fst es) rl g =
           Inr (rl', g\<lparr>entities := A @ filter (\<lambda>(k, e). alive e) es,
                       dead_this_tick := dead_this_tick g @ filter (\<lambda>(k, e). \<not> alive e) es\<rparr>) \<and>
         (\<forall>r c. tile_pos (realm_map rl') r c = tile_pos (realm_map rl) r c) \<and>
         (\<forall>p. occupants (tiles (realm_map rl') p) =
                occupants (tiles (realm_map rl) p) - set (dead_at rl es p))"
proof (induction es arbitrary: A rl g)
  case Nil
  then show ?case by (simp add: dead_at_def)
next
  case (Cons ke es)
  obtain k e where ke: "ke = (k, e)" by (cases ke)
  have kA: "k \<notin> fst ` set A" and kes: "k \<notin> fst ` set es"
    and dist': "distinct (map fst ((A @ [(k, e)]) @ es))" and dist'': "distinct (map fst (A @ es))"
    using Cons.prems(1) ke by auto
  have eid: "ent_id e = k" using Cons.prems(2) ke by auto
  have rest: "\<forall>(k, e) \<in> set es. ent_id e = k \<and> (\<not> alive e \<longrightarrow> on_grid rl e)"
    using Cons.prems(2) by auto
  have get: "dict_get (entities g) k = Inr e"
    using Cons.prems(3) ke kA
    by (simp add: dict_get_def map_add_def map_of_eq_None_iff[THEN iffD2])
  show ?case
  proof (cases "alive e")
    case True
    have ents: "entities g = (A @ [(k, e)]) @ es" using Cons.prems(3) ke by simp
    have dd: "fst ` set (dead_this_tick g) \<inter> fst ` set es = {}" using Cons.prems(4) by auto
    from Cons.IH[OF dist' rest ents dd]
    show ?thesis
      using True get ke by (simp add: bind_err_def dead_at_def)
  next
    case False
    have og: "on_grid rl e" using Cons.prems(2) ke False by auto
    then obtain p where p: "tile_pos (realm_map rl) (fst (pos e)) (snd (pos e)) = Inr p"
      by (auto simp: on_grid_def split: sum.splits)
    have kd: "k \<notin> fst ` set (dead_this_tick g)" using Cons.prems(4) ke by auto
    let ?g1 = "g\<lparr>dead_this_tick := dead_this_tick g @ [(k, e)]\<rparr>"
    let ?rl1 = "on_tile (remove_entity k) p rl"
    let ?rl2 = "if ITEM_SYSTEM_ENABLED cfg
                then ?rl1\<lparr>effects := effects ?rl1 @ map (ItemDestroyed k) (inventory e)\<rparr> else ?rl1"
    let ?rl3 = "?rl2\<lparr>effects := effects ?rl2 @ [RecordDeleted k]\<rparr>"
    let ?g2 = "?g1\<lparr>entities := A @ es\<rparr>"
    have del: "dict_del (entities g) k = Inr (A @ es)"
      using Cons.prems(3) ke kA kes by (simp add: dict_del_def delete_middle)
    have step: "cull_loop cfg (map fst (ke # es)) rl g = cull_loop cfg (map fst es) ?rl3 ?g2"
      using False get del p eid kd ke
      by (cases "pos e") (simp add: bind_err_def update_new_key Let_def)
    have tp3: "\<And>r c. tile_pos (realm_map ?rl3) r c = tile_pos (realm_map rl) r c"
      by simp
    have rest3: "\<forall>(k, e) \<in> set es. ent_id e = k \<and> (\<not> alive e \<longrightarrow> on_grid ?rl3 e)"
      using rest tp3 by (auto simp: on_grid_def)
    have ents2: "entities ?g2 = A @ es" by simp
    have dd2: "fst ` set (dead_this_tick ?g2) \<inter> fst ` set es = {}"
      using Cons.prems(4) kes by auto
    from Cons.IH[OF dist'' rest3 ents2 dd2]
    obtain rl' where
      r: "cull_loop cfg (map fst es) ?rl3 ?g2 =
           Inr (rl', ?g2\<lparr>entities := A @ filter (\<lambda>(k, e). alive e) es,
                          dead_this_tick := dead_this_tick ?g2 @ filter (\<lambda>(k, e). \<not> alive e) es\<rparr>)"
      and t: "\<forall>r c. tile_pos (realm_map rl') r c = tile_pos (realm_map ?rl3) r c"
      and o: "\<forall>q. occupants (tiles (realm_map rl') q) =
                occupants (tiles (realm_map ?rl3) q) - set (dead_at ?rl3 es q)"
      by blast
    have da: "\<And>q. dead_at ?rl3 es q = dead_at rl es q"
      by (simp add: dead_at_def)
    have occ3: "\<And>q. occupants (tiles (realm_map ?rl3) q) =
                  (if q = p then occupants (tiles (realm_map rl) q) - {k}
                   else occupants (tiles (realm_map rl) q))"
      by (simp add: on_tile_def remove_entity_def)
    have dk: "\<And>q. set (dead_at rl (ke # es) q) = (if q = p then {k} else {}) \<union> set (dead_at rl es q)"
      using False p ke by (auto simp: dead_at_def)
    have occ: "\<forall>q. occupants (tiles (realm_map rl') q) =
                occupants (tiles (realm_map rl) q) - set (dead_at rl (ke # es) q)"
      using o da occ3 dk by auto
    have res: "cull_loop cfg (map fst (ke # es)) rl g =
           Inr (rl', g\<lparr>entities := A @ filter (\<lambda>(k, e). alive e) (ke # es),
                       dead_this_tick := dead_this_tick g @ filter (\<lambda>(k, e). \<not> alive e) (ke # es)\<rparr>)"
      using step r False ke by simp
    show ?thesis using res t tp3 occ by auto
  qed
qed

text \<open>
  C5.  For a group whose keys are the ids of its entities, with every dead entity
  standing on the grid, \<open>cull\<close> returns normally and afterwards \<open>dead_this_tick\<close> is
  exactly the registered entities whose \<open>alive\<close> flag was false, in registration
  order, whatever it held before; the live map keeps exactly the others; every tile's
  occupants have lost exactly the dead entities that stood on it; and with no dead
  entity \<open>dead_this_tick\<close> is empty.
\<close>

theorem EntityGroup_cull_result:
  assumes "distinct (map fst (entities g))"
    and "\<forall>(k, e) \<in> set (entities g). ent_id e = k \<and> (\<not> alive e \<longrightarrow> on_grid rl e)"
  shows "\<exists>rl' g'. EntityGroup_cull cfg rl g = Inr (rl', g') \<and>
           dead_this_tick g' = filter (\<lambda>(k, e). \<not> alive e) (entities g) \<and>
           entities g' = filter (\<lambda>(k, e). alive e) (entities g) \<and>
           (\<forall>p. occupants (tiles (realm_map rl') p) =
                  occupants (tiles (realm_map rl) p) - set (dead_at rl (entities g) p)) \<and>
           ((\<forall>(k, e) \<in> set (entities g). alive e) \<longrightarrow> dead_this_tick g' = [])"
proof -
  let ?g = "g\<lparr>dead_this_tick := []\<rparr>"
  have a: "distinct (map fst ([] @ entities g))" using assms(1) by simp
  have c: "entities ?g = [] @ entities g" by simp
  have d: "fst ` set (dead_this_tick ?g) \<inter> fst ` set (entities g) = {}" by simp
  from cull_loop_result[OF a assms(2) c d, of cfg]
  obtain rl' where
    r: "cull_loop cfg (map fst (entities g)) rl ?g =
           Inr (rl', ?g\<lparr>entities := [] @ filter (\<lambda>(k, e). alive e) (entities g),
                         dead_this_tick := dead_this_tick ?g @ filter (\<lambda>(k, e). \<not> alive e) (entities g)\<rparr>)"
    and o: "\<forall>p. occupants (tiles (realm_map rl') p) =
                occupants (tiles (realm_map rl) p) - set (dead_at rl (entities g) p)"
    by blast
  let ?g' = "?g\<lparr>entities := [] @ filter (\<lambda>(k, e). alive e) (entities g),
                 dead_this_tick := dead_this_tick ?g @ filter (\<lambda>(k, e). \<not> alive e) (entities g)\<rparr>"
  have e: "(\<forall>(k, e) \<in> set (entities g). alive e) \<longrightarrow> dead_this_tick ?g' = []"
    by (auto simp: filter_empty_conv)
  have "EntityGroup_cull cfg rl g = Inr (rl', ?g')"
    using r by (simp add: EntityGroup_cull_def)
  moreover have "dead_this_tick ?g' = filter (\<lambda>(k, e). \<not> alive e) (entities g)" by simp
  moreover have "entities ?g' = filter (\<lambda>(k, e). alive e) (entities g)" by simp
  ultimately show ?thesis using o e by blast
qed

theorem EntityGroup_cull_result_witness:
  "distinct (map fst (entities g0)) \<and>
   list_all (\<lambda>(k, e). ent_id e = k \<and> (alive e \<or> on_grid rl0 e)) (entities g0) \<and>
   (\<exists>rl' g'. EntityGroup_cull cfg0 rl0 g0 = Inr (rl', g') \<and>
      dead_this_tick g' = [(2, e_dead)] \<and> entities g' = [(1, e0)] \<and>
      occupants (tiles (realm_map rl') (1, 2)) = {} \<and>
      occupants (tiles (realm_map rl') (1, 1)) = {1}) \<and>
   (\<exists>rl' g'. EntityGroup_cull cfg0 rl0 g_alive = Inr (rl', g') \<and> dead_this_tick g' = [])"
proof -
  have og: "on_grid rl0 e_dead"
    by (simp add: on_grid_def rl0_def e_dead_def m_grass_def Map_init_def cfg0_def
        tile_pos_def np_index_def bind_err_def)
  have a: "distinct (map fst (entities g0))" by (simp add: g0_def)
  have b: "\<forall>(k, e) \<in> set (entities g0). ent_id e = k \<and> (\<not> alive e \<longrightarrow> on_grid rl0 e)"
    using og by (simp add: g0_def e0_def e_dead_def)
  have b': "list_all (\<lambda>(k, e). ent_id e = k \<and> (alive e \<or> on_grid rl0 e)) (entities g0)"
    using og by (simp add: g0_def e0_def e_dead_def)
  have a2: "distinct (map fst (entities g_alive))" by (simp add: g_alive_def)
  have b2: "\<forall>(k, e) \<in> set (entities g_alive). ent_id e = k \<and> (\<not> alive e \<longrightarrow> on_grid rl0 e)"
    by (simp add: g_alive_def e0_def)
  have f: "filter (\<lambda>(k, e). \<not> alive e) (entities g0) = [(2, e_dead)]"
          "filter (\<lambda>(k, e). alive e) (entities g0) = [(1, e0)]"
    by (simp_all add: g0_def e0_def e_dead_def)
  have da: "dead_at rl0 (entities g0) (1, 2) = [2]" "dead_at rl0 (entities g0) (1, 1) = []"
    by (simp_all add: dead_at_def g0_def e0_def e_dead_def rl0_def m_grass_def Map_init_def
        cfg0_def tile_pos_def np_index_def bind_err_def)
  have oc: "occupants (tiles (realm_map rl0) (1, 2)) = {2}" "occupants (tiles (realm_map rl0) (1, 1)) = {1}"
    by (simp_all add: rl0_def add_entity_def blank_def)
  have A: "\<exists>rl' g'. EntityGroup_cull cfg0 rl0 g0 = Inr (rl', g') \<and>
      dead_this_tick g' = [(2, e_dead)] \<and> entities g' = [(1, e0)] \<and>
      occupants (tiles (realm_map rl') (1, 2)) = {} \<and>
      occupants (tiles (realm_map rl') (1, 1)) = {1}"
    using EntityGroup_cull_result[OF a b, of cfg0] f da oc by auto
  have al: "\<forall>(k, e) \<in> set (entities g_alive). alive e" by (simp add: g_alive_def e0_def)
  have B: "\<exists>rl' g'. EntityGroup_cull cfg0 rl0 g_alive = Inr (rl', g') \<and> dead_this_tick g' = []"
    using EntityGroup_cull_result[OF a2 b2, of cfg0] al by blast
  show ?thesis using a b' A B by blast
qed

text \<open>
  C4.  \<open>NPCManager.spawn\<close> on its failing inputs.  With two free slots and the danger
  values 1/4, 3/4 on the stack, both placements are biased toward 3/4 and one value is
  popped after the loop, leaving 1/4 (a pop after each use would bias the second
  placement toward 1/4 and leave the stack empty).  With the population at its target
  no placement is made, and 3/4 is popped without having been used.
\<close>

theorem NPCManager_spawn_pops_once_per_call:
  "(case NPCManager_spawn sp0 cfg0 rl_grass mg0 [] of
      Inr (rl', mg', used) \<Rightarrow> (used, map fst (entities mg'), spawn_dangers mg')
    | Inl err \<Rightarrow> ([], [], [])) = ([Some (3 / 4), Some (3 / 4)], [- 1, - 2], [1 / 4]) \<and>
   (case NPCManager_spawn sp0 cfg0 rl_grass mg_full [] of
      Inr (rl', mg', used) \<Rightarrow> (used, map fst (entities mg'), spawn_dangers mg')
    | Inl err \<Rightarrow> ([], [], [])) = ([], [- 1, - 2], [1 / 4])"
  by (simp add: NPCManager_spawn_def EntityGroup_spawn_def on_tile_def add_entity_def
      sp0_def cfg0_def rl_grass_def mg0_def mg_full_def npc_at_def m_grass_def Map_init_def
      tile_pos_def np_index_def bind_err_def Let_def numeral_2_eq_2)

section \<open>Properties of the snapshots\<close>

lemma where_in_id_cached:
  "cache_result gs (Where_key t s) = Some v \<Longrightarrow> where_in_id h gs t s = Inr (v, gs)"
  by (simp add: where_in_id_def)

lemma where_in_id_fresh:
  assumes "cache_result gs (Where_key t s) = None"
  shows "where_in_id h gs t s =
     (if t \<in> {''entity'', ''item'', ''event''} then
        bind_err (heap_read h (table_of gs t)) (\<lambda>table.
        bind_err (np_take table (concat (map (index_get (index_of gs t)) s))) (\<lambda>res.
          Inr (Arr res, gs\<lparr>cache_result := (cache_result gs)(Where_key t s \<mapsto> Arr res)\<rparr>)))
      else Inl ValueError)"
proof -
  consider "t = ''entity''" | "t = ''item''" | "t = ''event''" | "t \<notin> {''entity'', ''item'', ''event''}"
    by auto
  then show ?thesis
  proof cases
    case 1
    then show ?thesis using assms
      by (simp add: where_in_id_def lookup_def table_of_def index_of_def bind_err_def Let_def
          split: sum.splits)
  next
    case 2
    then show ?thesis using assms
      by (simp add: where_in_id_def lookup_def table_of_def index_of_def bind_err_def Let_def
          split: sum.splits)
  next
    case 3
    then show ?thesis using assms
      by (simp add: where_in_id_def lookup_def table_of_def index_of_def bind_err_def Let_def
          split: sum.splits)
  next
    case 4
    then show ?thesis using assms
      by (simp add: where_in_id_def bind_err_def Let_def)
  qed
qed

lemma table_of_cache [simp]: "table_of (gs\<lparr>cache_result := c\<rparr>) t = table_of gs t"
  by (simp add: table_of_def)

lemma index_of_cache [simp]: "index_of (gs\<lparr>cache_result := c\<rparr>) t = index_of gs t"
  by (simp add: index_of_def)

lemma where_in_id_heap_cong:
  assumes "cells h2 (entity_data gs) = cells h (entity_data gs)"
    and "cells h2 (item_data gs) = cells h (item_data gs)"
    and "cells h2 (event_data gs) = cells h (event_data gs)"
  shows "where_in_id h2 gs t s = where_in_id h gs t s"
proof (cases "cache_result gs (Where_key t s)")
  case (Some v)
  then show ?thesis by (simp add: where_in_id_cached)
next
  case None
  have "heap_read h2 (table_of gs t) = heap_read h (table_of gs t)"
    using assms by (simp add: heap_read_def table_of_def)
  then show ?thesis by (simp add: where_in_id_fresh[OF None])
qed

lemma where_in_id_data:
  assumes "where_in_id h gs t s = Inr (v, gs1)"
  shows "\<exists>c. gs1 = gs\<lparr>cache_result := c\<rparr> \<and> c (Where_key t s) = Some v"
proof (cases "cache_result gs (Where_key t s)")
  case (Some u)
  then have "v = u" "gs1 = gs" using assms by (simp_all add: where_in_id_cached)
  then have "gs1 = gs\<lparr>cache_result := cache_result gs\<rparr> \<and> cache_result gs (Where_key t s) = Some v"
    using Some by simp
  then show ?thesis by blast
next
  case None
  show ?thesis
    using assms unfolding where_in_id_fresh[OF None]
    by (auto simp: bind_err_def split: if_splits sum.splits)
qed

lemma fields_heap_cong:
  assumes "cells h2 (entity_data gs) = cells h (entity_data gs)"
    and "cells h2 (item_data gs) = cells h (item_data gs)"
    and "cells h2 (event_data gs) = cells h (event_data gs)"
  shows "entity_field ac h2 gs s attr = entity_field ac h gs s attr"
    and "item_field ac h2 gs s attr = item_field ac h gs s attr"
    and "event_field ac h2 gs s code attr = event_field ac h gs s code attr"
  by (simp_all add: entity_field_def item_field_def event_field_def event_code_view_def
      where_in_id_heap_cong[OF assms])


lemma bind_err_Inr:
  "bind_err x f = Inr y \<Longrightarrow> \<exists>v. x = Inr v \<and> f v = Inr y"
  by (cases x) (simp_all add: bind_err_def)

lemma np_copy_Inr:
  "np_copy h a = Inr (b, h1) \<Longrightarrow>
   \<exists>arr. cells h a = Some arr \<and> b = next_addr h \<and>
         h1 = h\<lparr>next_addr := Suc (next_addr h), cells := (cells h)(next_addr h \<mapsto> arr)\<rparr>"
  by (auto simp: np_copy_def heap_read_def bind_err_def split: option.splits)

lemma generate_result:
  assumes "generate ac cfg sp h ds tick obs = Inr (gs, h')"
  shows "\<exists>ea ia va idc oc vc ids.
     cells h (entity_table ds) = Some ea \<and>
     EntityAttr ac ''id'' = Some idc \<and> np_column ea idc = Inr ids \<and>
     ItemAttr ac ''owner_id'' = Some oc \<and> EventAttr ac ''ent_id'' = Some vc \<and>
     entity_data gs = next_addr h \<and> item_data gs = Suc (next_addr h) \<and>
     event_data gs = Suc (Suc (next_addr h)) \<and>
     cells h' (next_addr h) = Some ea \<and> cells h' (Suc (next_addr h)) = Some ia \<and>
     cells h' (Suc (Suc (next_addr h))) = Some va \<and>
     precompute_index ea idc = Inr (entity_index gs) \<and>
     precompute_index ia oc = Inr (item_index gs) \<and>
     precompute_index va vc = Inr (event_index gs) \<and>
     alive_agents gs = set (filter (\<lambda>i. 0 < i) ids) \<and>
     cache_result gs = Map.empty \<and>
     (heap_ok h \<longrightarrow> array_ok ea \<and> array_ok ia \<and> array_ok va)"
proof -
  from assms obtain ea h1 A idc ids ia h2 B va C eix oc iix vc vix where
    c1: "np_copy h (entity_table ds) = Inr (ea, h1)" and rd1: "heap_read h1 ea = Inr A"
    and i: "attr_col (EntityAttr ac) ''id'' = Inr idc" "np_column A idc = Inr ids"
    and c2: "np_copy h1 (item_table ds) = Inr (ia, h2)" and rd2: "heap_read h2 ia = Inr B"
    and c3: "np_copy h2 (event_table ds) = Inr (va, h')" and rd3: "heap_read h' va = Inr C"
    and x: "precompute_index A idc = Inr eix" "attr_col (ItemAttr ac) ''owner_id'' = Inr oc"
       "precompute_index B oc = Inr iix" "attr_col (EventAttr ac) ''ent_id'' = Inr vc"
       "precompute_index C vc = Inr vix"
    and g: "gs = \<lparr> current_tick = tick, gs_config = cfg, spawn_pos = sp,
              alive_agents = set (filter (\<lambda>i. 0 < i) ids), env_obs = obs,
              entity_data = ea, entity_index = eix, item_data = ia, item_index = iix,
              event_data = va, event_index = vix, cache_result = Map.empty \<rparr>"
    unfolding generate_def by (auto dest!: bind_err_Inr)
  from np_copy_Inr[OF c1] obtain A' where
    A: "cells h (entity_table ds) = Some A'" "ea = next_addr h"
       "h1 = h\<lparr>next_addr := Suc (next_addr h), cells := (cells h)(next_addr h \<mapsto> A')\<rparr>"
    by blast
  have AA: "A' = A" using rd1 A by (simp add: heap_read_def)
  from np_copy_Inr[OF c2] obtain B' where
    B: "cells h1 (item_table ds) = Some B'" "ia = next_addr h1"
       "h2 = h1\<lparr>next_addr := Suc (next_addr h1), cells := (cells h1)(next_addr h1 \<mapsto> B')\<rparr>"
    by blast
  have BB: "B' = B" using rd2 B by (simp add: heap_read_def)
  from np_copy_Inr[OF c3] obtain C' where
    C: "cells h2 (event_table ds) = Some C'" "va = next_addr h2"
       "h' = h2\<lparr>next_addr := Suc (next_addr h2), cells := (cells h2)(next_addr h2 \<mapsto> C')\<rparr>"
    by blast
  have CC: "C' = C" using rd3 C by (simp add: heap_read_def)
  have at: "EntityAttr ac ''id'' = Some idc" "ItemAttr ac ''owner_id'' = Some oc"
           "EventAttr ac ''ent_id'' = Some vc"
    using i(1) x(2) x(4) by (auto simp: attr_col_def split: option.splits)
  have cellsh': "cells h' (next_addr h) = Some A" "cells h' (Suc (next_addr h)) = Some B"
                "cells h' (Suc (Suc (next_addr h))) = Some C"
    using A B C AA BB CC by simp_all
  have ad: "ea = next_addr h" "ia = Suc (next_addr h)" "va = Suc (Suc (next_addr h))"
    using A B C by simp_all
  have ok: "heap_ok h \<longrightarrow> array_ok A \<and> array_ok B \<and> array_ok C"
  proof
    assume hk: "heap_ok h"
    have a: "array_ok A" using hk A(1) AA by (auto simp: heap_ok_def)
    have b: "array_ok B" using hk a A(3) AA B(1) BB by (auto simp: heap_ok_def split: if_splits)
    have c: "array_ok C" using hk a b A(3) AA B(3) BB C(1) CC by (auto simp: heap_ok_def split: if_splits)
    show "array_ok A \<and> array_ok B \<and> array_ok C" using a b c by simp
  qed
  show ?thesis
    using A(1) AA at i(2) x g ad cellsh' ok by auto
qed


lemma fold_heap_write_other:
  "\<forall>w \<in> set ws. fst w \<noteq> a \<Longrightarrow> cells (fold heap_write ws h) a = cells h a"
  by (induction ws arbitrary: h) (auto simp: heap_write_def)

text \<open>
  C6.  \<open>generate\<close> copies the three tables to fresh cells of the store, so the snapshot
  shares no array with the live datastore: after any sequence of writes to cells that
  existed when \<open>generate\<close> was called (the live tables among them), and whatever the
  snapshot's cache holds, \<open>where_in_id\<close> and the field projections of the entity,
  item and event views return what they return without the writes, and
  \<open>alive_agents\<close> is the set of positive ids of the entity table as it was at
  generation.
\<close>

theorem snapshot_unchanged_by_live_mutation:
  assumes "generate ac cfg sp h ds tick obs = Inr (gs, h')"
    and "\<forall>w \<in> set ws. fst w < next_addr h"
  shows "where_in_id (fold heap_write ws h') (gs\<lparr>cache_result := c\<rparr>) t s =
           where_in_id h' (gs\<lparr>cache_result := c\<rparr>) t s \<and>
         entity_field ac (fold heap_write ws h') (gs\<lparr>cache_result := c\<rparr>) s attr =
           entity_field ac h' (gs\<lparr>cache_result := c\<rparr>) s attr \<and>
         item_field ac (fold heap_write ws h') (gs\<lparr>cache_result := c\<rparr>) s attr =
           item_field ac h' (gs\<lparr>cache_result := c\<rparr>) s attr \<and>
         event_field ac (fold heap_write ws h') (gs\<lparr>cache_result := c\<rparr>) s code attr =
           event_field ac h' (gs\<lparr>cache_result := c\<rparr>) s code attr \<and>
         (\<exists>table idc ids. cells h (entity_table ds) = Some table \<and>
            EntityAttr ac ''id'' = Some idc \<and> np_column table idc = Inr ids \<and>
            alive_agents gs = {i \<in> set ids. 0 < i})"
proof -
  let ?gs = "gs\<lparr>cache_result := c\<rparr>"
  let ?h2 = "fold heap_write ws h'"
  from generate_result[OF assms(1)] obtain ea idc ids where
    g: "cells h (entity_table ds) = Some ea" "EntityAttr ac ''id'' = Some idc"
       "np_column ea idc = Inr ids" "alive_agents gs = set (filter (\<lambda>i. 0 < i) ids)"
       "entity_data gs = next_addr h" "item_data gs = Suc (next_addr h)"
       "event_data gs = Suc (Suc (next_addr h))"
    by blast
  have e: "cells ?h2 (entity_data ?gs) = cells h' (entity_data ?gs)"
    using assms(2) g(5) by (intro fold_heap_write_other) auto
  have i: "cells ?h2 (item_data ?gs) = cells h' (item_data ?gs)"
    using assms(2) g(6) by (intro fold_heap_write_other) auto
  have v: "cells ?h2 (event_data ?gs) = cells h' (event_data ?gs)"
    using assms(2) g(7) by (intro fold_heap_write_other) auto
  have al: "alive_agents gs = {i \<in> set ids. 0 < i}" using g(4) by auto
  show ?thesis
    using where_in_id_heap_cong[OF e i v] fields_heap_cong[OF e i v] g(1-3) al by blast
qed

lemma index_loop_bound:
  "(\<forall>k rs. index k = Some rs \<longrightarrow> list_all (\<lambda>i. i < row + length ids) rs) \<Longrightarrow>
   index_loop row ids index k = Some rs \<Longrightarrow> list_all (\<lambda>i. i < row + length ids) rs"
proof (induction ids arbitrary: row index)
  case Nil
  then show ?case by simp
next
  case (Cons i ids)
  let ?ix = "case index i of Some rs \<Rightarrow> index(i \<mapsto> rs @ [row]) | None \<Rightarrow> index(i \<mapsto> [row])"
  have "\<forall>k rs. ?ix k = Some rs \<longrightarrow> list_all (\<lambda>j. j < Suc row + length ids) rs"
    using Cons.prems(1) by (auto split: option.splits if_splits)
  from Cons.IH[OF this] Cons.prems(2) show ?case by simp
qed

lemma precompute_index_ok:
  assumes "array_ok table" and "precompute_index table col = Inr index" and "index k = Some rs"
  shows "list_all (\<lambda>i. i < fst (shape table)) rs"
proof -
  from assms(2) obtain ids where ids: "np_column table col = Inr ids"
    and ix: "index = index_loop 0 ids Map.empty"
    by (auto simp: precompute_index_def dest!: bind_err_Inr)
  have len: "length ids = fst (shape table)"
    using ids assms(1) by (auto simp: np_column_def array_ok_def split: if_splits)
  have "list_all (\<lambda>i. i < 0 + length ids) rs"
    using assms(3) ix by (intro index_loop_bound[of Map.empty 0 ids k rs]) auto
  then show ?thesis using len by simp
qed

lemma generate_ok:
  assumes "generate ac cfg sp h ds tick obs = Inr (gs, h')" and "heap_ok h"
  shows "snapshot_ok h' gs"
proof -
  from generate_result[OF assms(1)] assms(2) obtain ea ia va idc oc vc where
    g: "entity_data gs = next_addr h" "item_data gs = Suc (next_addr h)"
       "event_data gs = Suc (Suc (next_addr h))"
       "cells h' (next_addr h) = Some ea" "cells h' (Suc (next_addr h)) = Some ia"
       "cells h' (Suc (Suc (next_addr h))) = Some va"
       "precompute_index ea idc = Inr (entity_index gs)"
       "precompute_index ia oc = Inr (item_index gs)"
       "precompute_index va vc = Inr (event_index gs)"
       "cache_result gs = Map.empty"
       "array_ok ea" "array_ok ia" "array_ok va"
    by blast
  have e: "index_ok h' (entity_data gs) (entity_index gs)"
    unfolding index_ok_def using g(1,4) precompute_index_ok[OF g(11) g(7)] by auto
  have i: "index_ok h' (item_data gs) (item_index gs)"
    unfolding index_ok_def using g(2,5) precompute_index_ok[OF g(12) g(8)] by auto
  have v: "index_ok h' (event_data gs) (event_index gs)"
    unfolding index_ok_def using g(3,6) precompute_index_ok[OF g(13) g(9)] by auto
  show ?thesis using e i v g(10) by (simp add: snapshot_ok_def)
qed


lemma index_of_ok:
  assumes "snapshot_ok h gs" and "t \<in> table_names"
  shows "index_ok h (table_of gs t) (index_of gs t)"
  using assms by (auto simp: snapshot_ok_def table_names_def table_of_def index_of_def)

lemma take_indexed:
  assumes "index_ok h d index"
  shows "\<exists>table. heap_read h d = Inr table \<and>
           np_take table (concat (map (index_get index) s)) =
             Inr \<lparr>shape = (length (indexed_rows table index s), snd (shape table)),
                  rows = indexed_rows table index s\<rparr>"
proof -
  from assms obtain table where t: "cells h d = Some table"
    and b: "\<And>k rs. index k = Some rs \<Longrightarrow> list_all (\<lambda>i. i < fst (shape table)) rs"
    by (auto simp: index_ok_def)
  have one: "list_all (\<lambda>i. i < fst (shape table)) (index_get index sbj)" for sbj
    using b[of sbj] by (cases "index sbj") (simp_all add: index_get_def)
  have all: "list_all (\<lambda>i. i < fst (shape table)) (concat (map (index_get index) s))"
    using one by (auto simp: list_all_iff)
  have r: "map (\<lambda>i. rows table ! i) (concat (map (index_get index) s)) = indexed_rows table index s"
    by (simp add: indexed_rows_def map_concat comp_def)
  have l: "length (concat (map (index_get index) s)) = length (indexed_rows table index s)"
    using arg_cong[OF r, of length] by simp
  show ?thesis using t all r l by (simp add: heap_read_def np_take_def)
qed

lemma np_take_rows:
  "np_take table idxs = Inr res \<Longrightarrow>
   res = \<lparr>shape = (length idxs, snd (shape table)), rows = map (\<lambda>i. rows table ! i) idxs\<rparr>"
  by (auto simp: np_take_def split: if_splits)

text \<open>
  C7.  For a valid table name, when \<open>where_in_id\<close> has returned a result, a second
  call with the same table and subject returns the identical result and leaves the
  snapshot as it is; it is served from the cache, that is, it returns this result for
  any store and any tables and indices (nothing is looked up again); and the result of
  a first call (the key not yet cached) is the concatenation, in subject order, of the
  indexed rows of each id.
\<close>

theorem where_in_id_memoized:
  assumes "t \<in> table_names" and "where_in_id h gs t s = Inr (v, gs1)"
  shows "where_in_id h gs1 t s = Inr (v, gs1) \<and>
         (\<forall>h2 gs2. cache_result gs2 = cache_result gs1 \<longrightarrow> where_in_id h2 gs2 t s = Inr (v, gs2)) \<and>
         (cache_result gs (Where_key t s) = None \<longrightarrow>
            (\<exists>table. cells h (table_of gs t) = Some table \<and>
               v = Arr \<lparr>shape = (length (indexed_rows table (index_of gs t) s), snd (shape table)),
                        rows = indexed_rows table (index_of gs t) s\<rparr>))"
proof -
  from where_in_id_data[OF assms(2)] obtain c where
    c: "gs1 = gs\<lparr>cache_result := c\<rparr>" "c (Where_key t s) = Some v"
    by blast
  have cached: "cache_result gs1 (Where_key t s) = Some v" using c by simp
  have A: "where_in_id h gs1 t s = Inr (v, gs1)"
    using cached by (rule where_in_id_cached)
  have B: "\<forall>h2 gs2. cache_result gs2 = cache_result gs1 \<longrightarrow> where_in_id h2 gs2 t s = Inr (v, gs2)"
    using cached by (auto intro: where_in_id_cached)
  have C: "cache_result gs (Where_key t s) = None \<longrightarrow>
            (\<exists>table. cells h (table_of gs t) = Some table \<and>
               v = Arr \<lparr>shape = (length (indexed_rows table (index_of gs t) s), snd (shape table)),
                        rows = indexed_rows table (index_of gs t) s\<rparr>)"
  proof
    assume n: "cache_result gs (Where_key t s) = None"
    from assms(2) obtain table res where
      t: "heap_read h (table_of gs t) = Inr table"
      and r: "np_take table (concat (map (index_get (index_of gs t)) s)) = Inr res"
      and v: "v = Arr res"
      unfolding where_in_id_fresh[OF n]
      by (auto simp: bind_err_def split: if_splits sum.splits)
    have rows: "map (\<lambda>i. rows table ! i) (concat (map (index_get (index_of gs t)) s)) =
                indexed_rows table (index_of gs t) s"
      by (simp add: indexed_rows_def map_concat comp_def)
    have len: "length (concat (map (index_get (index_of gs t)) s)) =
               length (indexed_rows table (index_of gs t) s)"
      using arg_cong[OF rows, of length] by simp
    have "cells h (table_of gs t) = Some table"
      using t by (auto simp: heap_read_def split: option.splits)
    then show "\<exists>table. cells h (table_of gs t) = Some table \<and>
               v = Arr \<lparr>shape = (length (indexed_rows table (index_of gs t) s), snd (shape table)),
                        rows = indexed_rows table (index_of gs t) s\<rparr>"
      using np_take_rows[OF r] v rows len by auto
  qed
  show ?thesis using A B C by blast
qed

lemma where_in_id_valid:
  assumes "snapshot_ok h gs" and "t \<in> table_names"
  shows "\<exists>v gs'. where_in_id h gs t s = Inr (v, gs') \<and> snapshot_ok h gs'"
proof (cases "cache_result gs (Where_key t s)")
  case (Some v)
  then show ?thesis using assms(1) by (auto simp: where_in_id_cached)
next
  case None
  from take_indexed[OF index_of_ok[OF assms], of s] obtain table res where
    t: "heap_read h (table_of gs t) = Inr table"
    and k: "np_take table (concat (map (index_get (index_of gs t)) s)) = Inr res"
    by blast
  let ?gs' = "gs\<lparr>cache_result := (cache_result gs)(Where_key t s \<mapsto> Arr res)\<rparr>"
  have w: "where_in_id h gs t s = Inr (Arr res, ?gs')"
    using assms(2) t k by (simp add: where_in_id_fresh[OF None] bind_err_def table_names_def)
  have ok: "snapshot_ok h ?gs'"
    using assms by (auto simp: snapshot_ok_def table_names_def)
  show ?thesis using w ok by blast
qed

text \<open>
  C8.  On a well-formed snapshot (as \<open>generate\<close> builds and the queries keep it),
  \<open>where_in_id\<close> raises ValueError, the invalid-table error, if and only if the table
  name is none of entity, item, event; for these three names it returns normally and
  leaves the snapshot well-formed.
\<close>

theorem where_in_id_raises_iff_invalid_table:
  assumes "snapshot_ok h gs"
  shows "(where_in_id h gs t s = Inl ValueError \<longleftrightarrow> t \<notin> table_names) \<and>
         (t \<in> table_names \<longrightarrow> (\<exists>v gs'. where_in_id h gs t s = Inr (v, gs') \<and> snapshot_ok h gs'))"
proof (cases "t \<in> table_names")
  case False
  have "cache_result gs (Where_key t s) = None"
  proof (rule ccontr)
    assume "cache_result gs (Where_key t s) \<noteq> None"
    then have "t \<in> {''entity'', ''item'', ''event''}"
      using assms unfolding snapshot_ok_def by blast
    then show False using False by (simp add: table_names_def)
  qed
  from where_in_id_fresh[OF this, of h] False show ?thesis
    by (simp add: table_names_def)
next
  case True
  from where_in_id_valid[OF assms True, of s] True show ?thesis by auto
qed

lemma generate0:
  "\<exists>gs h'. generate ac0 cfg0 Map.empty h0 ds0 7 (Map.empty :: int \<rightharpoonup> unit) = Inr (gs, h')"
  by (simp add: generate_def np_copy_def heap_read_def attr_col_def np_column_def
      precompute_index_def bind_err_def ac0_def h0_def ds0_def tbl_entity_def tbl_item_def
      tbl_event_def)

lemma heap_ok0: "heap_ok h0"
  by (simp add: heap_ok_def h0_def array_ok_def tbl_entity_def tbl_item_def tbl_event_def)

theorem snapshot_unchanged_by_live_mutation_witness:
  "fst (0::nat, tbl_zero) < next_addr h0 \<and>
   (\<exists>gs h'. generate ac0 cfg0 Map.empty h0 ds0 7 (Map.empty :: int \<rightharpoonup> unit) = Inr (gs, h') \<and>
      where_in_id (fold heap_write [(0, tbl_zero)] h') gs ''entity'' [2, 1] =
        where_in_id h' gs ''entity'' [2, 1] \<and>
      entity_field ac0 (fold heap_write [(0, tbl_zero)] h') gs [2, 1] ''health'' =
        entity_field ac0 h' gs [2, 1] ''health'' \<and>
      item_field ac0 (fold heap_write [(0, tbl_zero)] h') gs [2, 1] ''id'' =
        item_field ac0 h' gs [2, 1] ''id'' \<and>
      event_field ac0 (fold heap_write [(0, tbl_zero)] h') gs [2, 1] ''EAT_FOOD'' ''ent_id'' =
        event_field ac0 h' gs [2, 1] ''EAT_FOOD'' ''ent_id'' \<and>
      (\<exists>v gs'. where_in_id h' gs ''entity'' [2, 1] = Inr (v, gs')) \<and>
      alive_agents gs = {1, 2})"
proof -
  obtain gs h' where
    g: "generate ac0 cfg0 Map.empty h0 ds0 7 (Map.empty :: int \<rightharpoonup> unit) = Inr (gs, h')"
    using generate0 by blast
  have ok: "snapshot_ok h' gs" using g heap_ok0 by (rule generate_ok)
  have ret: "\<exists>v gs'. where_in_id h' gs ''entity'' [2, 1] = Inr (v, gs')"
    using where_in_id_valid[OF ok, of "''entity''" "[2, 1]"] by (auto simp: table_names_def)
  have a: "fst (0::nat, tbl_zero) < next_addr h0" by (simp add: h0_def)
  have w: "\<forall>w \<in> set [(0::nat, tbl_zero)]. fst w < next_addr h0" using a by simp
  have same: "gs\<lparr>cache_result := cache_result gs\<rparr> = gs" by simp
  note t = snapshot_unchanged_by_live_mutation[OF g w, unfolded same]
  have q: "where_in_id (fold heap_write [(0, tbl_zero)] h') gs ''entity'' [2, 1] =
        where_in_id h' gs ''entity'' [2, 1]"
    by (rule t[of "cache_result gs", unfolded same, THEN conjunct1])
  have f: "entity_field ac0 (fold heap_write [(0, tbl_zero)] h') gs [2, 1] ''health'' =
        entity_field ac0 h' gs [2, 1] ''health''"
    by (rule t[of "cache_result gs", unfolded same, THEN conjunct2, THEN conjunct1])
  have fi: "item_field ac0 (fold heap_write [(0, tbl_zero)] h') gs [2, 1] ''id'' =
        item_field ac0 h' gs [2, 1] ''id''"
    by (rule t[of "cache_result gs", unfolded same, THEN conjunct2, THEN conjunct2, THEN conjunct1])
  have fe: "event_field ac0 (fold heap_write [(0, tbl_zero)] h') gs [2, 1] ''EAT_FOOD'' ''ent_id'' =
        event_field ac0 h' gs [2, 1] ''EAT_FOOD'' ''ent_id''"
    by (rule t[of "cache_result gs", unfolded same, THEN conjunct2, THEN conjunct2,
               THEN conjunct2, THEN conjunct1])
  obtain table idc ids where
    al: "cells h0 (entity_table ds0) = Some table" "EntityAttr ac0 ''id'' = Some idc"
        "np_column table idc = Inr ids" "alive_agents gs = {i \<in> set ids. 0 < i}"
    using t[of "cache_result gs" "''entity''" "[2, 1]" "''health''" "''EAT_FOOD''",
            THEN conjunct2, THEN conjunct2, THEN conjunct2, THEN conjunct2]
    by blast
  have tb: "table = tbl_entity" using al(1) by (simp add: h0_def ds0_def)
  have ic: "idc = 0" using al(2) by (simp add: ac0_def)
  have ids: "ids = [1, 2, - 1]"
    using al(3) unfolding tb ic by (simp add: np_column_def tbl_entity_def)
  have alive: "alive_agents gs = {1, 2}" unfolding al(4) ids by auto
  show ?thesis
    apply (rule conjI[OF a])
    apply (rule exI[of _ gs], rule exI[of _ h'])
    using g q f fi fe ret alive by simp
qed

theorem where_in_id_memoized_witness:
  "''entity'' \<in> table_names \<and>
   where_in_id h0 snap0 ''entity'' [2, 1] =
     Inr (Arr \<lparr>shape = (2, 2), rows = [[2, 80], [1, 90]]\<rparr>,
          snap0\<lparr>cache_result := [Where_key ''entity'' [2, 1] \<mapsto> Arr \<lparr>shape = (2, 2), rows = [[2, 80], [1, 90]]\<rparr>]\<rparr>) \<and>
   where_in_id h0
     (snap0\<lparr>cache_result := [Where_key ''entity'' [2, 1] \<mapsto> Arr \<lparr>shape = (2, 2), rows = [[2, 80], [1, 90]]\<rparr>]\<rparr>)
     ''entity'' [2, 1] =
     Inr (Arr \<lparr>shape = (2, 2), rows = [[2, 80], [1, 90]]\<rparr>,
          snap0\<lparr>cache_result := [Where_key ''entity'' [2, 1] \<mapsto> Arr \<lparr>shape = (2, 2), rows = [[2, 80], [1, 90]]\<rparr>]\<rparr>) \<and>
   indexed_rows tbl_entity (index_of snap0 ''entity'') [2, 1] = [[2, 80], [1, 90]]"
proof -
  let ?v = "Arr \<lparr>shape = (2, 2), rows = [[2, 80], [1, 90]]\<rparr>"
  let ?gs1 = "snap0\<lparr>cache_result := [Where_key ''entity'' [2, 1] \<mapsto> ?v]\<rparr>"
  have a: "''entity'' \<in> table_names" by (simp add: table_names_def)
  have b: "where_in_id h0 snap0 ''entity'' [2, 1] = Inr (?v, ?gs1)"
    by (simp add: where_in_id_def lookup_def heap_read_def np_take_def index_get_def
        bind_err_def snap0_def h0_def tbl_entity_def Let_def numeral_2_eq_2)
  have c: "indexed_rows tbl_entity (index_of snap0 ''entity'') [2, 1] = [[2, 80], [1, 90]]"
    by (simp add: indexed_rows_def index_of_def index_get_def snap0_def tbl_entity_def)
  from where_in_id_memoized[OF a b] have "where_in_id h0 ?gs1 ''entity'' [2, 1] = Inr (?v, ?gs1)"
    by blast
  then show ?thesis using a b c by blast
qed

theorem where_in_id_raises_iff_invalid_table_witness:
  "\<exists>gs h'. generate ac0 cfg0 Map.empty h0 ds0 7 (Map.empty :: int \<rightharpoonup> unit) = Inr (gs, h') \<and>
      snapshot_ok h' gs \<and> ''tile'' \<notin> table_names \<and> ''event'' \<in> table_names \<and>
      where_in_id h' gs ''tile'' [1] = Inl ValueError \<and>
      where_in_id h' gs ''event'' [1] \<noteq> Inl ValueError \<and>
      (\<exists>v gs'. where_in_id h' gs ''event'' [1] = Inr (v, gs'))"
proof -
  obtain gs h' where
    g: "generate ac0 cfg0 Map.empty h0 ds0 7 (Map.empty :: int \<rightharpoonup> unit) = Inr (gs, h')"
    using generate0 by blast
  have ok: "snapshot_ok h' gs" using g heap_ok0 by (rule generate_ok)
  have n: "''tile'' \<notin> table_names" "''event'' \<in> table_names" by (simp_all add: table_names_def)
  from where_in_id_raises_iff_invalid_table[OF ok, of "''tile''" "[1]"] n
  have bad: "where_in_id h' gs ''tile'' [1] = Inl ValueError" by blast
  from where_in_id_raises_iff_invalid_table[OF ok, of "''event''" "[1]"] n
  have good: "where_in_id h' gs ''event'' [1] \<noteq> Inl ValueError"
             "\<exists>v gs'. where_in_id h' gs ''event'' [1] = Inr (v, gs')"
    by blast+
  show ?thesis using g ok n bad good by blast
qed

end
